theory Spec2Isabelle
  imports Complex_Main "HOL-Library.Log_Nat" "HOL-Library.Option_ord" "HOL-Library.Multiset"
    "HOL-Library.Char_ord" "HOL-Library.List_Lexorder"
begin

section \<open>JavaScript numbers\<close>

text \<open>
  The handlers of \<^verbatim>\<open>services/imports/server.js\<close> compute with JavaScript numbers, which
  are IEEE-754 binary64 values. A finite binary64 value is a rational number, so a number
  is modelled by its exact value, and every arithmetic operation rounds the exact result
  to the nearest binary64 value, ties to even: 53 significant bits, exponents down to the
  subnormal spacing \<open>2^-1074\<close>. Results beyond the largest finite value (overflow to
  \<^verbatim>\<open>Infinity\<close>) are outside this model; every statement below that depends on the
  arithmetic is about values far inside the range.
\<close>

type_synonym number = rat

definition pow2 :: "int \<Rightarrow> rat" where
  "pow2 k = (if 0 \<le> k then 2 ^ nat k else 1 / 2 ^ nat (- k))"

text \<open>\<open>ilog2 x\<close> is the binary exponent of a positive \<open>x\<close>: \<open>2^k \<le> x < 2^(k+1)\<close>.\<close>

definition ilog2 :: "rat \<Rightarrow> int" where
  "ilog2 x = (case quotient_of x of (a, b) \<Rightarrow>
     (let k = bitlen a - bitlen b in if pow2 k \<le> x then k else k - 1))"

definition round_half_even :: "rat \<Rightarrow> int" where
  "round_half_even x = (let f = \<lfloor>x\<rfloor>; d = x - of_int f in
     if d < 1 / 2 then f else if 1 / 2 < d then f + 1 else if even f then f else f + 1)"

definition binary64 :: "rat \<Rightarrow> number" where
  "binary64 x =
     (if x = 0 then 0
      else let e = max (ilog2 \<bar>x\<bar> - 52) (- 1074)
           in of_int (round_half_even (x / pow2 e)) * pow2 e)"

text \<open>JavaScript's \<^verbatim>\<open>a * b\<close> and \<^verbatim>\<open>a + b\<close> on numbers.\<close>

definition js_mul :: "number \<Rightarrow> number \<Rightarrow> number" where
  "js_mul a b = binary64 (a * b)"

definition js_add :: "number \<Rightarrow> number \<Rightarrow> number" where
  "js_add a b = binary64 (a + b)"

definition js_sub :: "number \<Rightarrow> number \<Rightarrow> number" where
  "js_sub a b = binary64 (a - b)"

definition is_integer :: "number \<Rightarrow> bool" where
  "is_integer x \<longleftrightarrow> of_int \<lfloor>x\<rfloor> = x"

section \<open>The database\<close>

text \<open>
  The tables are those created by the initialisation script (\<^verbatim>\<open>CREATE TABLE\<close> statements
  for \<^verbatim>\<open>users\<close>, \<^verbatim>\<open>suppliers\<close>, \<^verbatim>\<open>products\<close>, \<^verbatim>\<open>imports\<close> and \<^verbatim>\<open>import_items\<close>). A table is the
  list of its rows in insertion order. Field prefixes follow the aliases of the queries
  (\<^verbatim>\<open>u\<close>, \<^verbatim>\<open>s\<close>, \<^verbatim>\<open>p\<close>, \<^verbatim>\<open>i\<close>, \<^verbatim>\<open>ii\<close>). Columns that the imports service never reads or writes
  (e-mail, password, price, stock, ...) are left out. The two dates of an import are stored
  as the bound \<^verbatim>\<open>Date\<close> objects arrive, in milliseconds since 1970. The time columns hold
  what \<^verbatim>\<open>CURRENT_TIMESTAMP\<close> gave, text of the form \<^verbatim>\<open>YYYY-MM-DD HH:MM:SS\<close>, and text is
  ordered as SQLite orders it, byte by byte. A numeric column holds a value as an integer
  when the value is whole and inside the 64-bit range, and as a binary64 value otherwise
  (the \<^verbatim>\<open>DECIMAL\<close> columns have numeric affinity): a total is modelled by its value.
\<close>

record user_row =
  u_id :: int
  u_username :: string
  u_role :: string

record supplier_row =
  s_id :: int
  s_name :: string
  s_country :: string

record product_row =
  p_id :: int
  p_name :: string
  p_description :: "string option"

record import_row =
  i_id :: int
  i_import_code :: string
  i_user_id :: int
  i_supplier_id :: int
  i_status :: string
  i_total_amount :: number
  i_import_date :: int
  i_estimated_arrival :: "int option"
  i_tracking_number :: "string option"
  i_notes :: "string option"
  i_created_at :: string
  i_updated_at :: string

record import_item_row =
  ii_id :: int
  ii_import_id :: int
  ii_product_id :: int
  ii_quantity :: int
  ii_unit_price :: number
  ii_total_price :: number
  ii_created_at :: string

text \<open>
  \<open>imports_seq\<close> and \<open>import_items_seq\<close> are the \<^verbatim>\<open>AUTOINCREMENT\<close> counters. The module
  \<^verbatim>\<open>config/database.js\<close> that opens the connection is not part of the sources, so whether
  it switches on SQLite's enforcement of the declared \<^verbatim>\<open>FOREIGN KEY\<close> clauses is not known:
  \<open>foreign_keys\<close> is that setting (SQLite's default is off).
\<close>

record database =
  users :: "user_row list"
  suppliers :: "supplier_row list"
  products :: "product_row list"
  imports_tbl :: "import_row list"
  import_items :: "import_item_row list"
  imports_seq :: int
  import_items_seq :: int
  foreign_keys :: bool

text \<open>
  What a handler reads from its surroundings: \<^verbatim>\<open>Date.now()\<close>,
  \<^verbatim>\<open>Math.random().toString(36)\<close>, the database's \<^verbatim>\<open>CURRENT_TIMESTAMP\<close> and its
  \<^verbatim>\<open>date('now', '-12 months')\<close>. The handlers await every database call inside
  \<^verbatim>\<open>try\<close>, and a call can be rejected for reasons outside the schema (a locked
  database file, a full disk). For the creation of an import, whose claims speak of such
  failures, \<open>storage_fault\<close> is the number of the database call of the request that is
  rejected in this way, counted from 0, if there is one.
\<close>

record env =
  date_now :: int
  math_random :: string
  current_timestamp :: string
  twelve_months_ago :: string
  storage_fault :: "nat option"

text \<open>
  The responses: \<open>Status400\<close> carries the message of the validation failure; 403 is the
  answer of \<^verbatim>\<open>authorize\<close>, 404 the ``not found'' answer, 500 the answer of every
  \<^verbatim>\<open>catch\<close> block.
\<close>

datatype 'a response =
    Status200 'a
  | Status201 'a
  | Status400 string
  | Status403
  | Status404
  | Status500

text \<open>\<^verbatim>\<open>INTEGER PRIMARY KEY AUTOINCREMENT\<close>: one more than the largest rowid ever used.\<close>

definition next_rowid :: "int \<Rightarrow> int list \<Rightarrow> int" where
  "next_rowid seq ids = fold max ids seq + 1"

section \<open>Creating an import: \<^verbatim>\<open>POST /api/imports\<close>\<close>

record item_body =
  product_id :: number
  quantity :: number
  unit_price :: number

text \<open>
  A date field of the body, as \<^verbatim>\<open>Joi.date()\<close> sees it: absent, present but not a date,
  or a date, which Joi hands on as a \<^verbatim>\<open>Date\<close> object (here its milliseconds since 1970).
\<close>

datatype date_field = Absent | NotADate | DateMs int

record import_body =
  supplier_id :: number
  import_date :: date_field
  estimated_arrival :: date_field
  notes_text :: "string option"
  items :: "item_body list"

text \<open>
  \<^verbatim>\<open>importSchema.validate\<close>: the keys are checked in the order of the schema and the
  first rule that fails gives the message, here the name of the offending key; \<open>None\<close>
  when the body is valid. \<^verbatim>\<open>Joi.number()\<close> refuses a number outside the safe integer range
  \<open>\<plusminus>(2^53 - 1)\<close> before its other rules, and \<^verbatim>\<open>Joi.string()\<close> refuses the empty text.
\<close>

definition safe_number :: "number \<Rightarrow> bool" where
  "safe_number x \<longleftrightarrow> - 9007199254740991 \<le> x \<and> x \<le> 9007199254740991"

fun validate_items :: "item_body list \<Rightarrow> string option" where
  "validate_items [] = None"
| "validate_items (it # its) =
     (if \<not> (safe_number (product_id it) \<and> is_integer (product_id it) \<and> 0 < product_id it)
      then Some ''product_id''
      else if \<not> (safe_number (quantity it) \<and> is_integer (quantity it) \<and> 0 < quantity it)
      then Some ''quantity''
      else if \<not> (safe_number (unit_price it) \<and> 0 < unit_price it) then Some ''unit_price''
      else validate_items its)"

definition importSchema_validate :: "import_body \<Rightarrow> string option" where
  "importSchema_validate body =
     (if \<not> (safe_number (supplier_id body) \<and> is_integer (supplier_id body) \<and> 0 < supplier_id body)
      then Some ''supplier_id''
      else if import_date body = Absent \<or> import_date body = NotADate then Some ''import_date''
      else if estimated_arrival body = NotADate then Some ''estimated_arrival''
      else if (case notes_text body of None \<Rightarrow> False | Some n \<Rightarrow> n = [] \<or> 500 < length n)
      then Some ''notes''
      else case validate_items (items body) of
             Some msg \<Rightarrow> Some msg
           | None \<Rightarrow> if length (items body) < 1 then Some ''items'' else None)"

text \<open>The value that is bound for a validated date: \<^verbatim>\<open>NULL\<close> for an absent one.\<close>

definition date_value :: "date_field \<Rightarrow> int option" where
  "date_value d = (case d of DateMs ms \<Rightarrow> Some ms | _ \<Rightarrow> None)"

text \<open>The loop \<^verbatim>\<open>for (const item of items) totalAmount += item.quantity * item.unit_price\<close>,
  started at 0.\<close>

definition total_of :: "item_body list \<Rightarrow> number" where
  "total_of its = fold (\<lambda>item totalAmount. js_add totalAmount (js_mul (quantity item) (unit_price item))) its 0"

subsection \<open>\<^verbatim>\<open>generateImportCode\<close>\<close>

definition digit36 :: "nat \<Rightarrow> char" where
  "digit36 d = (if d < 10 then char_of (48 + d) else char_of (87 + d))"

text \<open>\<^verbatim>\<open>n.toString(36)\<close> for an integer \<open>n \<ge> 0\<close>, as \<^verbatim>\<open>Date.now()\<close> is.\<close>

function to_base36 :: "int \<Rightarrow> string" where
  "to_base36 n =
     (if n < 36 then [digit36 (nat n)] else to_base36 (n div 36) @ [digit36 (nat (n mod 36))])"
  by pat_completeness auto
termination
  by (relation "measure nat") auto

definition upper_char :: "char \<Rightarrow> char" where
  "upper_char c = (let n = (of_char c :: nat) in if 97 \<le> n \<and> n \<le> 122 then char_of (n - 32) else c)"

definition toUpperCase :: "string \<Rightarrow> string" where
  "toUpperCase s = map upper_char s"

text \<open>
  \<open>now_ms\<close> is \<^verbatim>\<open>Date.now()\<close> and \<open>random36\<close> is \<^verbatim>\<open>Math.random().toString(36)\<close>, a text such
  as \<^verbatim>\<open>0.4fzyo82mvyr\<close>; \<^verbatim>\<open>substr(2, 5)\<close> keeps at most five characters from position 2.
\<close>

definition generateImportCode :: "int \<Rightarrow> string \<Rightarrow> string" where
  "generateImportCode now_ms random36 =
     toUpperCase (''IMP-'' @ to_base36 now_ms @ ''-'' @ take 5 (drop 2 random36))"

subsection \<open>The two \<^verbatim>\<open>INSERT\<close> statements\<close>

text \<open>
  \<^verbatim>\<open>db.run\<close> of an \<^verbatim>\<open>INSERT\<close> either adds the row and yields its rowid, or rejects and
  changes nothing (\<open>None\<close>). The statement itself is rejected when a constraint of the
  schema is violated: \<^verbatim>\<open>import_code TEXT UNIQUE\<close>, and the foreign keys when they are
  enforced. The columns not named by the statement take their defaults: status
  \<^verbatim>\<open>pending\<close>, no tracking number, both timestamps \<^verbatim>\<open>CURRENT_TIMESTAMP\<close>.
\<close>

definition run_insert_import ::
  "string \<Rightarrow> database \<Rightarrow> string \<Rightarrow> int \<Rightarrow> int \<Rightarrow> number \<Rightarrow> int \<Rightarrow> int option \<Rightarrow> string option
     \<Rightarrow> (int \<times> database) option" where
  "run_insert_import ts db code uid sid amount idate eta nts =
     (if code \<in> set (map i_import_code (imports_tbl db)) then None
      else if foreign_keys db \<and>
              (uid \<notin> set (map u_id (users db)) \<or> sid \<notin> set (map s_id (suppliers db))) then None
      else
        let new_id = next_rowid (imports_seq db) (map i_id (imports_tbl db));
            row = \<lparr>i_id = new_id, i_import_code = code, i_user_id = uid, i_supplier_id = sid,
                   i_status = ''pending'', i_total_amount = amount, i_import_date = idate,
                   i_estimated_arrival = eta, i_tracking_number = None, i_notes = nts,
                   i_created_at = ts, i_updated_at = ts\<rparr>
        in Some (new_id, db\<lparr>imports_tbl := imports_tbl db @ [row], imports_seq := new_id\<rparr>))"

definition run_insert_item ::
  "string \<Rightarrow> database \<Rightarrow> int \<Rightarrow> int \<Rightarrow> int \<Rightarrow> number \<Rightarrow> number \<Rightarrow> database option" where
  "run_insert_item ts db iid pid qty price totalPrice =
     (if foreign_keys db \<and>
         (iid \<notin> set (map i_id (imports_tbl db)) \<or> pid \<notin> set (map p_id (products db))) then None
      else
        let new_id = next_rowid (import_items_seq db) (map ii_id (import_items db));
            row = \<lparr>ii_id = new_id, ii_import_id = iid, ii_product_id = pid, ii_quantity = qty,
                   ii_unit_price = price, ii_total_price = totalPrice, ii_created_at = ts\<rparr>
        in Some (db\<lparr>import_items := import_items db @ [row], import_items_seq := new_id\<rparr>))"

text \<open>
  The \<open>k\<close>-th database call of the creation: rejected by the storage layer when the fault
  of the request is at \<open>k\<close>, and otherwise what the statement itself gives.
\<close>

definition db_call :: "env \<Rightarrow> nat \<Rightarrow> 'a option \<Rightarrow> 'a option" where
  "db_call e k result = (if storage_fault e = Some k then None else result)"

text \<open>The first call, \<^verbatim>\<open>INSERT INTO imports\<close> with the computed total and the
  generated code.\<close>

definition insert_header ::
  "env \<Rightarrow> database \<Rightarrow> user_row \<Rightarrow> import_body \<Rightarrow> (int \<times> database) option" where
  "insert_header e db user body =
     db_call e 0
       (run_insert_import (current_timestamp e) db
          (generateImportCode (date_now e) (math_random e)) (u_id user) \<lfloor>supplier_id body\<rfloor>
          (total_of (items body)) (the (date_value (import_date body)))
          (date_value (estimated_arrival body)) (notes_text body))"

text \<open>
  The second loop of the handler, whose first call has the number \<open>k\<close>. Each statement is
  awaited on its own and nothing opens a transaction, so when one \<^verbatim>\<open>db.run\<close> rejects, the
  exception leaves the loop with the database as the earlier statements made it: the
  result is \<open>False\<close> with that database.
\<close>

fun insert_items :: "env \<Rightarrow> nat \<Rightarrow> database \<Rightarrow> int \<Rightarrow> item_body list \<Rightarrow> bool \<times> database" where
  "insert_items e k db iid [] = (True, db)"
| "insert_items e k db iid (item # its) =
     (let totalPrice = js_mul (quantity item) (unit_price item) in
      case db_call e k
             (run_insert_item (current_timestamp e) db iid \<lfloor>product_id item\<rfloor> \<lfloor>quantity item\<rfloor>
                (unit_price item) totalPrice) of
        None \<Rightarrow> (False, db)
      | Some db' \<Rightarrow> insert_items e (Suc k) db' iid its)"

text \<open>The row the handler answers with: the new import joined with its supplier's name
  (\<^verbatim>\<open>LEFT JOIN\<close>: no name when no supplier has that id).\<close>

record created_import =
  c_import :: import_row
  c_supplier_name :: "string option"

definition supplier_of :: "database \<Rightarrow> int \<Rightarrow> supplier_row option" where
  "supplier_of db sid = find (\<lambda>s. s_id s = sid) (suppliers db)"

definition select_new_import :: "database \<Rightarrow> int \<Rightarrow> created_import list" where
  "select_new_import db iid =
     map (\<lambda>i. \<lparr>c_import = i, c_supplier_name = map_option s_name (supplier_of db (i_supplier_id i))\<rparr>)
       (filter (\<lambda>i. i_id i = iid) (imports_tbl db))"

text \<open>\<^verbatim>\<open>xs[0]\<close>: \<^verbatim>\<open>undefined\<close> on an empty array.\<close>

definition first_of :: "'a list \<Rightarrow> 'a option" where
  "first_of xs = (case xs of [] \<Rightarrow> None | x # _ \<Rightarrow> Some x)"

text \<open>
  The handler: validation, the total, the code, the header, the items, and the
  \<^verbatim>\<open>SELECT\<close> of the new row, which is the last database call. Every rejected call ends in
  the \<^verbatim>\<open>catch\<close> block, with the database as it is at that moment.
\<close>

definition post_imports ::
  "env \<Rightarrow> database \<Rightarrow> user_row \<Rightarrow> import_body \<Rightarrow> created_import option response \<times> database" where
  "post_imports e db user body =
     (case importSchema_validate body of
        Some msg \<Rightarrow> (Status400 msg, db)
      | None \<Rightarrow>
          (case insert_header e db user body of
             None \<Rightarrow> (Status500, db)
           | Some (new_id, db1) \<Rightarrow>
               (case insert_items e 1 db1 new_id (items body) of
                  (False, db2) \<Rightarrow> (Status500, db2)
                | (True, db2) \<Rightarrow>
                    (case db_call e (Suc (length (items body))) (Some (select_new_import db2 new_id)) of
                       None \<Rightarrow> (Status500, db2)
                     | Some newImport \<Rightarrow> (Status201 (first_of newImport), db2)))))"

text \<open>The sum the specification asks for, in exact arithmetic.\<close>

definition exact_total :: "item_body list \<Rightarrow> rat" where
  "exact_total its = (\<Sum>item\<leftarrow>its. quantity item * unit_price item)"

text \<open>Items whose quantities and unit prices are positive whole numbers.\<close>

definition whole_items :: "item_body list \<Rightarrow> bool" where
  "whole_items its \<longleftrightarrow> (\<forall>it \<in> set its. is_integer (quantity it) \<and> 0 < quantity it \<and>
      is_integer (unit_price it) \<and> 0 < unit_price it)"

section \<open>Reading imports: \<^verbatim>\<open>GET /api/imports\<close> and \<^verbatim>\<open>GET /api/imports/:id\<close>\<close>

text \<open>\<^verbatim>\<open>ORDER BY key DESC\<close>, as a stable insertion sort (SQL leaves the order of ties open).\<close>

fun insert_desc :: "('a \<Rightarrow> 'k::linorder) \<Rightarrow> 'a \<Rightarrow> 'a list \<Rightarrow> 'a list" where
  "insert_desc key x [] = [x]"
| "insert_desc key x (y # ys) =
     (if key y \<le> key x then x # y # ys else y # insert_desc key x ys)"

definition order_by_desc :: "('a \<Rightarrow> 'k::linorder) \<Rightarrow> 'a list \<Rightarrow> 'a list" where
  "order_by_desc key xs = foldr (insert_desc key) xs []"

record listed_import =
  l_import :: import_row
  l_supplier_name :: "string option"
  l_supplier_country :: "string option"
  l_created_by :: "string option"

definition user_of :: "database \<Rightarrow> int \<Rightarrow> user_row option" where
  "user_of db uid = find (\<lambda>u. u_id u = uid) (users db)"

definition product_of :: "database \<Rightarrow> int \<Rightarrow> product_row option" where
  "product_of db pid = find (\<lambda>p. p_id p = pid) (products db)"

text \<open>The two \<^verbatim>\<open>LEFT JOIN\<close>s of the list and detail queries.\<close>

definition join_import :: "database \<Rightarrow> import_row \<Rightarrow> listed_import" where
  "join_import db i =
     \<lparr>l_import = i,
      l_supplier_name = map_option s_name (supplier_of db (i_supplier_id i)),
      l_supplier_country = map_option s_country (supplier_of db (i_supplier_id i)),
      l_created_by = map_option u_username (user_of db (i_user_id i))\<rparr>"

text \<open>
  The query parameters: \<open>status\<close> is the text of \<^verbatim>\<open>req.query.status\<close> (absent, or empty and
  so falsy, means no filter); \<open>sid\<close> is \<^verbatim>\<open>req.query.supplier_id\<close> as the integer SQLite
  compares the column with, \<open>None\<close> when the parameter is absent or empty.
\<close>

definition get_imports ::
  "database \<Rightarrow> user_row \<Rightarrow> string option \<Rightarrow> int option \<Rightarrow> listed_import list response" where
  "get_imports db user status sid =
     (let rows0 = imports_tbl db;
          rows1 = (if u_role user \<noteq> ''admin'' then filter (\<lambda>i. i_user_id i = u_id user) rows0
                   else rows0);
          rows2 = (case status of
                     None \<Rightarrow> rows1
                   | Some st \<Rightarrow> if st \<noteq> [] then filter (\<lambda>i. i_status i = st) rows1 else rows1);
          rows3 = (case sid of
                     None \<Rightarrow> rows2
                   | Some n \<Rightarrow> filter (\<lambda>i. i_supplier_id i = n) rows2)
      in Status200 (map (join_import db) (order_by_desc i_created_at rows3)))"

record item_view =
  v_item :: import_item_row
  v_product_name :: "string option"
  v_product_description :: "string option"

definition join_item :: "database \<Rightarrow> import_item_row \<Rightarrow> item_view" where
  "join_item db ii =
     \<lparr>v_item = ii,
      v_product_name = map_option p_name (product_of db (ii_product_id ii)),
      v_product_description = Option.bind (product_of db (ii_product_id ii)) p_description\<rparr>"

record import_detail =
  d_import :: listed_import
  d_items :: "item_view list"

definition get_import_by_id :: "database \<Rightarrow> user_row \<Rightarrow> int \<Rightarrow> import_detail response" where
  "get_import_by_id db user iid =
     (let rows0 = filter (\<lambda>i. i_id i = iid) (imports_tbl db);
          rows1 = (if u_role user \<noteq> ''admin'' then filter (\<lambda>i. i_user_id i = u_id user) rows0
                   else rows0)
      in case rows1 of
           [] \<Rightarrow> Status404
         | r # _ \<Rightarrow>
             Status200 \<lparr>d_import = join_import db r,
                        d_items = map (join_item db)
                                    (filter (\<lambda>ii. ii_import_id ii = iid) (import_items db))\<rparr>)"

section \<open>Changing the status: \<^verbatim>\<open>PUT /api/imports/:id/status\<close>\<close>

text \<open>\<^verbatim>\<open>authorize(roles)\<close> of \<^verbatim>\<open>middleware/auth.js\<close>, for an authenticated user: whether the
  request reaches the handler (otherwise the answer is 403).\<close>

definition authorize :: "string list \<Rightarrow> user_row \<Rightarrow> bool" where
  "authorize roles user \<longleftrightarrow> \<not> (roles \<noteq> [] \<and> u_role user \<notin> set roles)"

definition validStatuses :: "string list" where
  "validStatuses = [''pending'', ''processing'', ''shipped'', ''in_transit'', ''customs'',
                    ''delivered'', ''cancelled'']"

text \<open>The body of the request: a field is \<open>None\<close> when the JSON has no text there.\<close>

record status_body =
  status :: "string option"
  tracking_number :: "string option"

definition array_includes :: "string list \<Rightarrow> string option \<Rightarrow> bool" where
  "array_includes xs v = (case v of None \<Rightarrow> False | Some s \<Rightarrow> s \<in> set xs)"

text \<open>\<^verbatim>\<open>tracking_number || null\<close>: the empty text is falsy as well.\<close>

definition or_null :: "string option \<Rightarrow> string option" where
  "or_null v = (case v of None \<Rightarrow> None | Some s \<Rightarrow> if s = [] then None else Some s)"

text \<open>\<^verbatim>\<open>UPDATE imports SET status = ?, tracking_number = ?, updated_at = CURRENT_TIMESTAMP
  WHERE id = ?\<close>. No constraint of the schema is on these columns, so it never rejects.\<close>

definition run_update_status ::
  "string \<Rightarrow> database \<Rightarrow> string \<Rightarrow> string option \<Rightarrow> int \<Rightarrow> database" where
  "run_update_status ts db st tn iid =
     db\<lparr>imports_tbl :=
          map (\<lambda>i. if i_id i = iid
                    then i\<lparr>i_status := st, i_tracking_number := tn, i_updated_at := ts\<rparr>
                    else i)
            (imports_tbl db)\<rparr>"

text \<open>The message of the 400 answer, \<^verbatim>\<open>Estado invalido\<close> (the a of the second word accented), in UTF-8.\<close>

definition estado_invalido :: string where
  "estado_invalido = ''Estado inv'' @ [CHR 0xC3, CHR 0xA1] @ ''lido''"

definition put_import_status ::
  "env \<Rightarrow> database \<Rightarrow> user_row \<Rightarrow> int \<Rightarrow> status_body \<Rightarrow> import_row response \<times> database" where
  "put_import_status e db user iid body =
     (if \<not> authorize [''admin''] user then (Status403, db)
      else if \<not> array_includes validStatuses (status body) then (Status400 estado_invalido, db)
      else
        let db' = run_update_status (current_timestamp e) db (the (status body))
                    (or_null (tracking_number body)) iid;
            updatedImport = filter (\<lambda>i. i_id i = iid) (imports_tbl db')
        in case updatedImport of
             [] \<Rightarrow> (Status404, db')
           | r # _ \<Rightarrow> (Status200 r, db'))"

section \<open>The dashboard: \<^verbatim>\<open>GET /api/imports/stats/dashboard\<close>\<close>

subsection \<open>SQLite's \<^verbatim>\<open>SUM\<close>\<close>

text \<open>
  The result of an aggregate: \<^verbatim>\<open>NULL\<close>, an integer or a binary64 value. The driver hands
  an integer to JavaScript as the nearest number.
\<close>

datatype sql_value = Null | Integer int | Real number

text \<open>How a total is held by its column (numeric affinity).\<close>

definition stored_as_integer :: "number \<Rightarrow> bool" where
  "stored_as_integer v \<longleftrightarrow> is_integer v \<and> - (2 ^ 63) < v \<and> v < 2 ^ 63 - 1"

text \<open>
  \<^verbatim>\<open>SUM\<close> as SQLite computes it since version 3.44 (\<^verbatim>\<open>sumStep\<close> and \<^verbatim>\<open>sumFinalize\<close>). While
  all values are integers they are added exactly in 64 bits. From the first value
  that is not an integer, or the first overflow, the sum is carried on in binary64 with
  a separate error term (Kahan-Babuska-Neumaier summation). The result is \<^verbatim>\<open>NULL\<close> over no
  rows; the query fails with \<^verbatim>\<open>integer overflow\<close> (here \<open>None\<close>) when the integers overflowed
  and no value that is not an integer came after.
\<close>

record sum_ctx =
  approx :: bool
  ovrfl :: bool
  iSum :: int
  rSum :: number
  rErr :: number

definition kahanBabuskaNeumaierStep :: "sum_ctx \<Rightarrow> number \<Rightarrow> sum_ctx" where
  "kahanBabuskaNeumaierStep p r =
     (let s = rSum p; t = js_add s r
      in p\<lparr>rErr := js_add (rErr p)
                     (if \<bar>r\<bar> < \<bar>s\<bar> then js_add (js_sub s t) r else js_add (js_sub r t) s),
           rSum := t\<rparr>)"

text \<open>C's \<^verbatim>\<open>%\<close> on 64-bit integers, which truncates towards zero.\<close>

definition c_rem :: "int \<Rightarrow> int \<Rightarrow> int" where
  "c_rem a b = sgn a * (\<bar>a\<bar> mod \<bar>b\<bar>)"

definition kahanBabuskaNeumaierStepInt64 :: "sum_ctx \<Rightarrow> int \<Rightarrow> sum_ctx" where
  "kahanBabuskaNeumaierStepInt64 p iVal =
     (if iVal \<le> - 4503599627370496 \<or> 4503599627370496 \<le> iVal
      then let iSm = c_rem iVal 16384; iBig = iVal - iSm
           in kahanBabuskaNeumaierStep (kahanBabuskaNeumaierStep p (binary64 (of_int iBig)))
                (binary64 (of_int iSm))
      else kahanBabuskaNeumaierStep p (binary64 (of_int iVal)))"

definition kahanBabuskaNeumaierInit :: "sum_ctx \<Rightarrow> int \<Rightarrow> sum_ctx" where
  "kahanBabuskaNeumaierInit p iVal =
     (if iVal \<le> - 4503599627370496 \<or> 4503599627370496 \<le> iVal
      then let iSm = c_rem iVal 16384
           in p\<lparr>rSum := binary64 (of_int (iVal - iSm)), rErr := binary64 (of_int iSm)\<rparr>
      else p\<lparr>rSum := binary64 (of_int iVal), rErr := 0\<rparr>)"

definition sumStep :: "number \<Rightarrow> sum_ctx \<Rightarrow> sum_ctx" where
  "sumStep v p =
     (if \<not> approx p then
        (if \<not> stored_as_integer v
         then kahanBabuskaNeumaierStep ((kahanBabuskaNeumaierInit p (iSum p))\<lparr>approx := True\<rparr>) v
         else let x = iSum p + \<lfloor>v\<rfloor>
              in if - (2 ^ 63) \<le> x \<and> x \<le> 2 ^ 63 - 1 then p\<lparr>iSum := x\<rparr>
                 else kahanBabuskaNeumaierStepInt64
                        ((kahanBabuskaNeumaierInit p (iSum p))\<lparr>approx := True, ovrfl := True\<rparr>) \<lfloor>v\<rfloor>)
      else if stored_as_integer v then kahanBabuskaNeumaierStepInt64 p \<lfloor>v\<rfloor>
      else kahanBabuskaNeumaierStep (p\<lparr>ovrfl := False\<rparr>) v)"

definition sumFinalize :: "sum_ctx \<Rightarrow> sql_value option" where
  "sumFinalize p =
     (if approx p then (if ovrfl p then None else Some (Real (js_add (rSum p) (rErr p))))
      else Some (Integer (iSum p)))"

definition sql_sum :: "number list \<Rightarrow> sql_value option" where
  "sql_sum vs =
     (if vs = [] then Some Null
      else sumFinalize
             (fold sumStep vs \<lparr>approx = False, ovrfl = False, iSum = 0, rSum = 0, rErr = 0\<rparr>))"

text \<open>The value by which \<^verbatim>\<open>ORDER BY\<close> compares: \<^verbatim>\<open>NULL\<close> is below every number, and an
  integer and a binary64 value compare by their values.\<close>

definition sql_num :: "sql_value \<Rightarrow> rat option" where
  "sql_num v = (case v of Null \<Rightarrow> None | Integer i \<Rightarrow> Some (of_int i) | Real r \<Rightarrow> Some r)"

subsection \<open>The three queries\<close>

text \<open>
  A query is \<open>None\<close> when a \<^verbatim>\<open>SUM\<close> in it fails. \<^verbatim>\<open>COUNT\<close> counts the rows where its
  argument is not \<^verbatim>\<open>NULL\<close>. SQLite forms the groups by sorting on the grouping columns, so
  without another \<^verbatim>\<open>ORDER BY\<close> they come out in that order.
\<close>

record status_stat =
  ss_status :: string
  ss_count :: nat
  ss_total_value :: sql_value

text \<open>\<^verbatim>\<open>SELECT status, COUNT(*), SUM(total_amount) FROM imports GROUP BY status\<close>.\<close>

definition status_group :: "database \<Rightarrow> string \<Rightarrow> status_stat option" where
  "status_group db st =
     (let grp = filter (\<lambda>i. i_status i = st) (imports_tbl db)
      in map_option (\<lambda>total. \<lparr>ss_status = st, ss_count = length grp, ss_total_value = total\<rparr>)
           (sql_sum (map i_total_amount grp)))"

definition statusStats :: "database \<Rightarrow> status_stat list option" where
  "statusStats db = those (map (status_group db) (sort (remdups (map i_status (imports_tbl db)))))"

text \<open>
  \<^verbatim>\<open>strftime('%Y-%m', created_at)\<close> on the text that \<^verbatim>\<open>CURRENT_TIMESTAMP\<close> writes: its first
  seven characters. Text of another form is taken as no date (\<^verbatim>\<open>NULL\<close>).
\<close>

definition is_digit :: "char \<Rightarrow> bool" where
  "is_digit c \<longleftrightarrow> (let n = (of_char c :: nat) in 48 \<le> n \<and> n \<le> 57)"

definition is_timestamp :: "string \<Rightarrow> bool" where
  "is_timestamp s \<longleftrightarrow>
     length s = 19 \<and>
     (\<forall>k \<in> {0, 1, 2, 3, 5, 6, 8, 9, 11, 12, 14, 15, 17, 18}. is_digit (s ! k)) \<and>
     s ! 4 = CHR ''-'' \<and> s ! 7 = CHR ''-'' \<and> s ! 10 = CHR '' '' \<and>
     s ! 13 = CHR '':'' \<and> s ! 16 = CHR '':''"

definition strftime_Y_m :: "string \<Rightarrow> string option" where
  "strftime_Y_m s = (if is_timestamp s then Some (take 7 s) else None)"

record monthly_stat =
  ms_month :: "string option"
  ms_imports_count :: nat
  ms_total_value :: sql_value

text \<open>\<^verbatim>\<open>SELECT strftime('%Y-%m', created_at) as month, COUNT(*), SUM(total_amount) FROM imports
  WHERE created_at >= date('now', '-12 months') GROUP BY strftime('%Y-%m', created_at)
  ORDER BY month DESC\<close>.\<close>

definition recent_imports :: "env \<Rightarrow> database \<Rightarrow> import_row list" where
  "recent_imports e db = filter (\<lambda>i. twelve_months_ago e \<le> i_created_at i) (imports_tbl db)"

definition month_group :: "env \<Rightarrow> database \<Rightarrow> string option \<Rightarrow> monthly_stat option" where
  "month_group e db m =
     (let grp = filter (\<lambda>i. strftime_Y_m (i_created_at i) = m) (recent_imports e db)
      in map_option (\<lambda>total. \<lparr>ms_month = m, ms_imports_count = length grp, ms_total_value = total\<rparr>)
           (sql_sum (map i_total_amount grp)))"

text \<open>\<^verbatim>\<open>ORDER BY key DESC\<close> is the stable descending sort \<open>order_by_desc\<close> of the list
  queries (SQL leaves the order of ties open).\<close>

definition monthlyStats :: "env \<Rightarrow> database \<Rightarrow> monthly_stat list option" where
  "monthlyStats e db =
     map_option (order_by_desc ms_month)
       (those (map (month_group e db)
                 (sort (remdups (map (\<lambda>i. strftime_Y_m (i_created_at i)) (recent_imports e db))))))"

record supplier_stat =
  ts_name :: string
  ts_imports_count :: nat
  ts_total_value :: sql_value

text \<open>
  \<^verbatim>\<open>FROM suppliers s LEFT JOIN imports i ON s.id = i.supplier_id GROUP BY s.id, s.name\<close>:
  \<^verbatim>\<open>s.id\<close> is the primary key, so each supplier row is a group. A supplier without imports
  is joined to one all-\<^verbatim>\<open>NULL\<close> row: \<^verbatim>\<open>COUNT(i.id)\<close> is 0 and the sum is \<^verbatim>\<open>NULL\<close>.
\<close>

definition supplier_group :: "database \<Rightarrow> supplier_row \<Rightarrow> supplier_stat option" where
  "supplier_group db s =
     (let grp = filter (\<lambda>i. i_supplier_id i = s_id s) (imports_tbl db)
      in map_option (\<lambda>total. \<lparr>ts_name = s_name s, ts_imports_count = length grp,
                               ts_total_value = total\<rparr>)
           (sql_sum (map i_total_amount grp)))"

text \<open>\<^verbatim>\<open>ORDER BY total_value DESC LIMIT 5\<close>: every group is computed before the first five
  are taken.\<close>

definition ranked_suppliers :: "database \<Rightarrow> supplier_stat list option" where
  "ranked_suppliers db =
     map_option (order_by_desc (\<lambda>g. sql_num (ts_total_value g)))
       (those (map (supplier_group db) (suppliers db)))"

definition topSuppliers :: "database \<Rightarrow> supplier_stat list option" where
  "topSuppliers db = map_option (take 5) (ranked_suppliers db)"

record stats =
  statusBreakdown :: "status_stat list"
  monthlyTrends :: "monthly_stat list"
  stats_topSuppliers :: "supplier_stat list"

text \<open>The handler runs the three queries in this order; a failing query ends in the
  \<^verbatim>\<open>catch\<close> block.\<close>

definition get_dashboard :: "env \<Rightarrow> database \<Rightarrow> stats response" where
  "get_dashboard e db =
     (case statusStats db of
        None \<Rightarrow> Status500
      | Some ss \<Rightarrow>
          (case monthlyStats e db of
             None \<Rightarrow> Status500
           | Some ms \<Rightarrow>
               (case topSuppliers db of
                  None \<Rightarrow> Status500
                | Some ts \<Rightarrow>
                    Status200 \<lparr>statusBreakdown = ss, monthlyTrends = ms, stats_topSuppliers = ts\<rparr>)))"

section \<open>The sample data of the initialisation script\<close>

definition sample_db :: database where
  "sample_db =
     \<lparr>users = [\<lparr>u_id = 1, u_username = ''admin'', u_role = ''admin''\<rparr>,
               \<lparr>u_id = 2, u_username = ''importer1'', u_role = ''user''\<rparr>],
      suppliers = [\<lparr>s_id = 1, s_name = ''Tech Supplies China'', s_country = ''China''\<rparr>,
                   \<lparr>s_id = 2, s_name = ''European Electronics'', s_country = ''Alemania''\<rparr>,
                   \<lparr>s_id = 3, s_name = ''Global Components'', s_country = ''Taiwan''\<rparr>],
      products = [\<lparr>p_id = 1, p_name = ''Smartphone XYZ'', p_description = Some ''Smartphone de alta gama''\<rparr>,
                  \<lparr>p_id = 2, p_name = ''Laptop ABC'', p_description = Some ''Laptop profesional''\<rparr>,
                  \<lparr>p_id = 3, p_name = ''Tablet DEF'', p_description = Some ''Tablet para uso general''\<rparr>,
                  \<lparr>p_id = 4, p_name = ''Auriculares GHI'', p_description = Some ''Auriculares inalambricos''\<rparr>],
      imports_tbl = [], import_items = [], imports_seq = 0, import_items_seq = 0,
      foreign_keys = False\<rparr>"

definition admin_user :: user_row where
  "admin_user = \<lparr>u_id = 1, u_username = ''admin'', u_role = ''admin''\<rparr>"

definition importer1 :: user_row where
  "importer1 = \<lparr>u_id = 2, u_username = ''importer1'', u_role = ''user''\<rparr>"

definition sample_env :: env where
  "sample_env = \<lparr>date_now = 1767225600000, math_random = ''0.4fzyo82mvyr'',
      current_timestamp = ''2026-01-01 00:00:00'', twelve_months_ago = ''2025-01-01'',
      storage_fault = None\<rparr>"

text \<open>
  Requests: the scenario of the specification (2 at 10.00 and 1 at 5.00), one with the
  decimal prices 0.1 and 0.2, one with a very large and a very small price, and one whose
  single line is worth \<open>2^62\<close>. A JSON number arrives as the nearest binary64 value; the
  import date is 15 January 2025.
\<close>

definition scenario_body :: import_body where
  "scenario_body =
     \<lparr>supplier_id = 1, import_date = DateMs 1736899200000, estimated_arrival = Absent,
      notes_text = None,
      items = [\<lparr>product_id = 1, quantity = 2, unit_price = 10\<rparr>,
               \<lparr>product_id = 2, quantity = 1, unit_price = 5\<rparr>]\<rparr>"

definition decimal_body :: import_body where
  "decimal_body =
     \<lparr>supplier_id = 1, import_date = DateMs 1736899200000, estimated_arrival = Absent,
      notes_text = None,
      items = [\<lparr>product_id = 1, quantity = 1, unit_price = binary64 (1 / 10)\<rparr>,
               \<lparr>product_id = 2, quantity = 1, unit_price = binary64 (2 / 10)\<rparr>]\<rparr>"

definition large_body :: import_body where
  "large_body =
     \<lparr>supplier_id = 1, import_date = DateMs 1736899200000, estimated_arrival = Absent,
      notes_text = None,
      items = [\<lparr>product_id = 1, quantity = 1, unit_price = 140737488355328\<rparr>,
               \<lparr>product_id = 2, quantity = 1, unit_price = binary64 (1 / 100)\<rparr>]\<rparr>"

definition huge_body :: import_body where
  "huge_body =
     \<lparr>supplier_id = 1, import_date = DateMs 1736899200000, estimated_arrival = Absent,
      notes_text = None,
      items = [\<lparr>product_id = 1, quantity = 2147483648, unit_price = 2147483648\<rparr>]\<rparr>"

text \<open>
  An hour later; the same moment as the first with the second database call rejected by
  the storage layer; the database after \<open>importer1\<close> created the scenario order; the
  database after the administrator then created a second one; that database after the
  first order was shipped with a tracking number; the sample data behind a connection that
  enforces foreign keys; the database after two orders worth \<open>2^62\<close> each were created.
  Then a request whose second item names a product that does not exist, a request that
  names a supplier and a product that do not exist, and three bodies of a status request.
\<close>

definition sample_env2 :: env where
  "sample_env2 = \<lparr>date_now = 1767229200000, math_random = ''0.i'',
      current_timestamp = ''2026-01-01 01:00:00'', twelve_months_ago = ''2025-01-01'',
      storage_fault = None\<rparr>"

definition faulty_env :: env where
  "faulty_env = sample_env\<lparr>storage_fault := Some 2\<rparr>"

definition after_scenario_db :: database where
  "after_scenario_db = snd (post_imports sample_env sample_db importer1 scenario_body)"

definition two_owner_db :: database where
  "two_owner_db = snd (post_imports sample_env2 after_scenario_db admin_user scenario_body)"

definition shipped_body :: status_body where
  "shipped_body = \<lparr>status = Some ''shipped'', tracking_number = Some ''TRK123''\<rparr>"

definition delivered_body :: status_body where
  "delivered_body = \<lparr>status = Some ''delivered'', tracking_number = None\<rparr>"

definition unknown_body :: status_body where
  "unknown_body = \<lparr>status = Some ''lost'', tracking_number = Some ''TRK123''\<rparr>"

definition shipped_db :: database where
  "shipped_db = snd (put_import_status sample_env2 two_owner_db admin_user 1 shipped_body)"

definition enforcing_db :: database where
  "enforcing_db = sample_db\<lparr>foreign_keys := True\<rparr>"

definition overflow_db :: database where
  "overflow_db =
     snd (post_imports sample_env2 (snd (post_imports sample_env sample_db importer1 huge_body))
            importer1 huge_body)"

definition partial_body :: import_body where
  "partial_body =
     \<lparr>supplier_id = 1, import_date = DateMs 1736899200000, estimated_arrival = Absent,
      notes_text = None,
      items = [\<lparr>product_id = 1, quantity = 2, unit_price = 10\<rparr>,
               \<lparr>product_id = 99, quantity = 1, unit_price = 5\<rparr>]\<rparr>"

definition dangling_body :: import_body where
  "dangling_body =
     \<lparr>supplier_id = 99, import_date = DateMs 1736899200000, estimated_arrival = Absent,
      notes_text = None,
      items = [\<lparr>product_id = 77, quantity = 1, unit_price = 5\<rparr>]\<rparr>"

section \<open>Rounding to binary64 is exact on integers up to \<open>2^53\<close>\<close>

lemma round_half_even_of_int: "round_half_even (of_int m) = m"
  by (simp add: round_half_even_def)

lemma ilog2_of_int:
  assumes "0 < n"
  shows "ilog2 (of_int n) = bitlen n - 1"
proof -
  have b: "2 ^ nat (bitlen n - 1) \<le> n" "1 \<le> bitlen n"
    using bitlen_bounds[OF assms] assms by (auto simp: bitlen_alt_def)
  have "pow2 (bitlen n - 1) = of_int (2 ^ nat (bitlen n - 1))"
    using b(2) by (simp add: pow2_def)
  also have "\<dots> \<le> of_int n"
    using b(1) by (simp only: of_int_le_iff)
  finally have "pow2 (bitlen n - 1) \<le> of_int n" .
  moreover have "bitlen 1 = 1" by (simp add: bitlen_alt_def)
  ultimately show ?thesis
    by (simp add: ilog2_def quotient_of_int)
qed

lemma bitlen_le_53:
  assumes "0 < n" "n < 2 ^ 53"
  shows "bitlen n \<le> 53"
proof -
  have "(2::int) ^ nat (bitlen n - 1) < 2 ^ 53"
    using bitlen_bounds[OF assms(1)] assms(2) by linarith
  then have "nat (bitlen n - 1) < 53"
    by (rule power_less_imp_less_exp[rotated]) simp
  then show ?thesis by linarith
qed

lemma binary64_of_int_lt:
  assumes "0 < n" "n < 2 ^ 53"
  shows "binary64 (of_int n) = of_int n"
proof -
  define e where "e = max (ilog2 (of_int n) - 52) (- 1074)"
  have unfold: "binary64 (of_int n) = of_int (round_half_even (of_int n / pow2 e)) * pow2 e"
    using assms(1) by (simp add: binary64_def e_def Let_def)
  have "e = max (bitlen n - 53) (- 1074)"
    using ilog2_of_int[OF assms(1)] by (simp add: e_def)
  then have e0: "e \<le> 0" using bitlen_le_53[OF assms] by simp
  then have p: "pow2 e = 1 / 2 ^ nat (- e)"
    by (cases "e = 0") (simp_all add: pow2_def)
  have "of_int n / pow2 e = (of_int (n * 2 ^ nat (- e)) :: rat)"
    by (simp add: p)
  then have "round_half_even (of_int n / pow2 e) = n * 2 ^ nat (- e)"
    by (simp only: round_half_even_of_int)
  then have "of_int (round_half_even (of_int n / pow2 e)) * pow2 e = (of_int n :: rat)"
    by (simp add: p)
  then show ?thesis
    by (simp only: unfold)
qed

lemma binary64_2_53: "binary64 (2 ^ 53) = 2 ^ 53"
  by code_simp

lemma binary64_of_int:
  assumes "0 \<le> n" "n \<le> 2 ^ 53"
  shows "binary64 (of_int n) = of_int n"
proof -
  consider "n = 0" | "0 < n" "n < 2 ^ 53" | "n = 2 ^ 53" using assms by linarith
  then show ?thesis
  proof cases
    case 1 then show ?thesis by (simp add: binary64_def)
  next
    case 2 then show ?thesis by (rule binary64_of_int_lt)
  next
    case 3 then show ?thesis using binary64_2_53 by simp
  qed
qed

section \<open>The total of a new import\<close>

lemma exact_total_Cons: "exact_total (it # its) = quantity it * unit_price it + exact_total its"
  by (simp add: exact_total_def)

lemma exact_total_nonneg: "whole_items its \<Longrightarrow> 0 \<le> exact_total its"
  by (induction its) (auto simp: whole_items_def exact_total_def)

lemma fold_total_exact:
  assumes "whole_items its" "0 \<le> a" "of_int a + exact_total its \<le> 2 ^ 53"
  shows "fold (\<lambda>item totalAmount. js_add totalAmount (js_mul (quantity item) (unit_price item))) its (of_int a)
         = of_int a + exact_total its"
  using assms
proof (induction its arbitrary: a)
  case Nil
  then show ?case by (simp add: exact_total_def)
next
  case (Cons it its)
  let ?q = "\<lfloor>quantity it\<rfloor>" and ?p = "\<lfloor>unit_price it\<rfloor>"
  from Cons.prems(1) have w: "whole_items its"
    and q: "of_int ?q = quantity it" "0 < quantity it"
    and p: "of_int ?p = unit_price it" "0 < unit_price it"
    by (auto simp: whole_items_def is_integer_def)
  have qp: "quantity it * unit_price it = of_int (?q * ?p)"
    by (simp only: of_int_mult q(1) p(1))
  have pos: "0 < ?q * ?p"
    using q p by (metis of_int_0_less_iff of_int_mult qp mult_pos_pos)
  have rest: "0 \<le> exact_total its" using w by (rule exact_total_nonneg)
  have bound: "(of_int (a + ?q * ?p) :: rat) + exact_total its \<le> 2 ^ 53"
    using Cons.prems(3) by (simp add: exact_total_Cons qp)
  then have "(of_int (a + ?q * ?p) :: rat) \<le> of_int (2 ^ 53)" using rest by simp
  then have le: "a + ?q * ?p \<le> 2 ^ 53" by (simp only: of_int_le_iff)
  have le1: "?q * ?p \<le> 2 ^ 53" using le Cons.prems(2) by linarith
  have m: "js_mul (quantity it) (unit_price it) = of_int (?q * ?p)"
    unfolding js_mul_def qp using pos le1 by (intro binary64_of_int) simp_all
  have "js_add (of_int a) (of_int (?q * ?p)) = binary64 (of_int (a + ?q * ?p))"
    by (simp add: js_add_def)
  also have "\<dots> = of_int (a + ?q * ?p)"
    using Cons.prems(2) pos le by (intro binary64_of_int) simp_all
  finally have s: "js_add (of_int a) (js_mul (quantity it) (unit_price it)) = of_int (a + ?q * ?p)"
    by (simp only: m)
  have "0 \<le> a + ?q * ?p" using Cons.prems(2) pos by linarith
  from Cons.IH[OF w this bound] show ?case
    by (simp add: s exact_total_Cons qp)
qed

lemma total_of_exact:
  assumes "whole_items its" "exact_total its \<le> 2 ^ 53"
  shows "total_of its = exact_total its"
  using fold_total_exact[OF assms(1), of 0] assms(2) by (simp add: total_of_def)

lemma fold_max_ge: "s \<le> fold max ids (s::int) \<and> (\<forall>x \<in> set ids. x \<le> fold max ids s)"
proof (induction ids arbitrary: s)
  case Nil
  then show ?case by simp
next
  case (Cons y ys)
  from Cons.IH[of "max y s"] show ?case by auto
qed

lemma next_rowid_fresh: "next_rowid seq ids \<notin> set ids"
  using fold_max_ge[of seq ids] by (fastforce simp: next_rowid_def)

lemma run_insert_item_frame:
  "run_insert_item ts db iid pid qty price tp = Some db' \<Longrightarrow>
     imports_tbl db' = imports_tbl db \<and> suppliers db' = suppliers db \<and> users db' = users db \<and>
     products db' = products db \<and> foreign_keys db' = foreign_keys db"
  by (auto simp: run_insert_item_def Let_def split: if_splits)

lemma db_call_Some: "db_call e k r = Some x \<Longrightarrow> r = Some x"
  by (simp add: db_call_def split: if_splits)

lemma insert_items_frame:
  "insert_items e k db iid its = (ok, db') \<Longrightarrow>
     imports_tbl db' = imports_tbl db \<and> suppliers db' = suppliers db \<and> users db' = users db \<and>
     products db' = products db \<and> foreign_keys db' = foreign_keys db"
proof (induction its arbitrary: k db)
  case Nil
  then show ?case by simp
next
  case (Cons it its)
  let ?call = "db_call e k (run_insert_item (current_timestamp e) db iid \<lfloor>product_id it\<rfloor>
                  \<lfloor>quantity it\<rfloor> (unit_price it) (js_mul (quantity it) (unit_price it)))"
  show ?case
  proof (cases ?call)
    case None
    with Cons.prems show ?thesis by (simp add: Let_def)
  next
    case (Some db1)
    with Cons.prems have "insert_items e (Suc k) db1 iid its = (ok, db')" by (simp add: Let_def)
    from Cons.IH[OF this] run_insert_item_frame[OF db_call_Some[OF Some]] show ?thesis by simp
  qed
qed

text \<open>What a 201 answer of the create handler means.\<close>

lemma post_imports_created:
  assumes "post_imports e db user body = (Status201 r, db')"
  shows "\<exists>row. r = Some \<lparr>c_import = row,
                         c_supplier_name = map_option s_name (supplier_of db (i_supplier_id row))\<rparr> \<and>
           imports_tbl db' = imports_tbl db @ [row] \<and>
           i_id row \<notin> set (map i_id (imports_tbl db)) \<and>
           i_import_code row = generateImportCode (date_now e) (math_random e) \<and>
           i_import_code row \<notin> set (map i_import_code (imports_tbl db)) \<and>
           i_user_id row = u_id user \<and>
           i_supplier_id row = \<lfloor>supplier_id body\<rfloor> \<and>
           i_status row = ''pending'' \<and>
           i_total_amount row = total_of (items body) \<and>
           importSchema_validate body = None"
proof -
  from assms have v: "importSchema_validate body = None"
    by (auto simp: post_imports_def split: option.splits)
  let ?code = "generateImportCode (date_now e) (math_random e)"
  from assms v obtain new_id db1 where ins: "insert_header e db user body = Some (new_id, db1)"
    by (auto simp: post_imports_def split: option.splits)
  from assms v ins have items_ok: "insert_items e 1 db1 new_id (items body) = (True, db')"
    and r: "r = first_of (select_new_import db' new_id)"
    by (auto simp: post_imports_def db_call_def split: prod.splits bool.splits if_splits)
  define row where "row = \<lparr>i_id = new_id, i_import_code = ?code, i_user_id = u_id user,
      i_supplier_id = \<lfloor>supplier_id body\<rfloor>, i_status = ''pending'',
      i_total_amount = total_of (items body),
      i_import_date = the (date_value (import_date body)),
      i_estimated_arrival = date_value (estimated_arrival body), i_tracking_number = None,
      i_notes = notes_text body, i_created_at = current_timestamp e,
      i_updated_at = current_timestamp e\<rparr>"
  from db_call_Some[OF ins[unfolded insert_header_def]]
  have fresh_code: "?code \<notin> set (map i_import_code (imports_tbl db))"
    and new_id: "new_id = next_rowid (imports_seq db) (map i_id (imports_tbl db))"
    and db1: "imports_tbl db1 = imports_tbl db @ [row]" "suppliers db1 = suppliers db"
    by (auto simp: run_insert_import_def Let_def row_def split: if_splits)
  have fresh_id: "new_id \<notin> set (map i_id (imports_tbl db))"
    unfolding new_id by (rule next_rowid_fresh)
  from insert_items_frame[OF items_ok] db1
  have db': "imports_tbl db' = imports_tbl db @ [row]" "suppliers db' = suppliers db" by simp_all
  have "filter (\<lambda>i. i_id i = new_id) (imports_tbl db) = []"
    using fresh_id by (auto simp: filter_empty_conv)
  then have "filter (\<lambda>i. i_id i = new_id) (imports_tbl db') = [row]"
    by (simp add: db' row_def)
  then have "r = Some \<lparr>c_import = row,
                        c_supplier_name = map_option s_name (supplier_of db (i_supplier_id row))\<rparr>"
    by (simp add: r select_new_import_def first_of_def supplier_of_def db')
  then show ?thesis
    using db' fresh_id fresh_code v by (intro exI[of _ row]) (simp add: row_def)
qed

text \<open>
  C1. The total that a successful creation stores and returns is the binary64
  accumulation \<open>total_of\<close> of the binary64 line products, in the order of the items.
  It is the exact sum of quantity times unit price when all unit prices are whole numbers
  and that sum is at most \<open>2^53\<close>. No decimal arithmetic is involved.
\<close>

theorem create_total_amount:
  assumes "post_imports e db user body = (Status201 r, db')"
  shows "\<exists>c. r = Some c \<and> c_import c \<in> set (imports_tbl db') \<and>
           i_total_amount (c_import c) = total_of (items body) \<and>
           (whole_items (items body) \<and> exact_total (items body) \<le> 2 ^ 53 \<longrightarrow>
              i_total_amount (c_import c) = exact_total (items body))"
proof -
  from post_imports_created[OF assms] obtain row where
    "r = Some \<lparr>c_import = row,
                c_supplier_name = map_option s_name (supplier_of db (i_supplier_id row))\<rparr>"
    "imports_tbl db' = imports_tbl db @ [row]"
    "i_total_amount row = total_of (items body)"
    by blast
  then show ?thesis
    by (auto simp: total_of_exact)
qed

lemma scenario_created:
  "fst (post_imports sample_env sample_db importer1 scenario_body) =
     Status201 (Some \<lparr>c_import = \<lparr>i_id = 1, i_import_code = ''IMP-MJUOHS00-4FZYO'', i_user_id = 2,
           i_supplier_id = 1, i_status = ''pending'', i_total_amount = 25,
           i_import_date = 1736899200000, i_estimated_arrival = None, i_tracking_number = None,
           i_notes = None, i_created_at = ''2026-01-01 00:00:00'',
           i_updated_at = ''2026-01-01 00:00:00''\<rparr>,
         c_supplier_name = Some ''Tech Supplies China''\<rparr>)"
  by code_simp

theorem create_total_amount_witness:
  "whole_items (items scenario_body) \<and> exact_total (items scenario_body) = 25 \<and>
   (\<exists>c. fst (post_imports sample_env sample_db importer1 scenario_body) = Status201 (Some c) \<and>
        i_total_amount (c_import c) = 25)"
proof -
  have w: "whole_items (items scenario_body)" by code_simp
  have x: "exact_total (items scenario_body) = 25" by code_simp
  have "post_imports sample_env sample_db importer1 scenario_body =
          (fst (post_imports sample_env sample_db importer1 scenario_body),
           snd (post_imports sample_env sample_db importer1 scenario_body))"
    by simp
  from create_total_amount[OF this[unfolded scenario_created]] w x show ?thesis
    by (auto simp: scenario_created)
qed

text \<open>
  With the prices 0.1 and 0.2 the stored total is 0.30000000000000004, neither the exact
  sum of the two prices nor 0.3; with the prices \<open>2^47\<close> and 0.01 the stored total is
  \<open>2^47\<close>, a whole cent below the exact sum.
\<close>

theorem create_total_amount_counterexample:
  "importSchema_validate decimal_body = None \<and>
   importSchema_validate large_body = None \<and>
   map i_total_amount (imports_tbl (snd (post_imports sample_env sample_db importer1 large_body)))
     = [140737488355328] \<and>
   140737488355328 + 1 / 100 \<le> exact_total (items large_body) \<and>
   map i_total_amount (imports_tbl (snd (post_imports sample_env sample_db importer1 decimal_body)))
     = [1351079888211149 / 4503599627370496] \<and>
   1351079888211149 / 4503599627370496 \<noteq> exact_total (items decimal_body) \<and>
   1351079888211149 / 4503599627370496 \<noteq> (3 / 10 :: rat)"
  by code_simp

text \<open>The example of the specification does come out as the binary64 value nearest to
  179.91: three items of quantity 3 at the price 19.99.\<close>

lemma total_of_three_at_19_99:
  "total_of (replicate 3 \<lparr>product_id = 1, quantity = 3, unit_price = binary64 (1999 / 100)\<rparr>)
     = binary64 (17991 / 100)"
  by code_simp

section \<open>\<^verbatim>\<open>ORDER BY ... DESC\<close> sorts and keeps the rows\<close>

lemma mset_insert_desc: "mset (insert_desc key x xs) = add_mset x (mset xs)"
  by (induction xs) auto

lemma mset_order_by_desc: "mset (order_by_desc key xs) = mset xs"
  by (induction xs) (auto simp: order_by_desc_def mset_insert_desc)

lemma set_order_by_desc: "set (order_by_desc key xs) = set xs"
  by (metis mset_order_by_desc set_mset_mset)




section \<open>Creation is not one unit\<close>

lemma pair_collapse: "fst p = a \<Longrightarrow> p = (a, snd p)"
  by (cases p) simp

lemma insert_items_result:
  "insert_items e k db iid its = (ok, db') \<Longrightarrow>
     \<exists>new. import_items db' = import_items db @ new \<and>
           (\<forall>x \<in> set new. ii_import_id x = iid) \<and>
           (if ok then length new = length its else length new < length its)"
proof (induction its arbitrary: k db)
  case Nil
  then show ?case by auto
next
  case (Cons it its)
  let ?call = "db_call e k (run_insert_item (current_timestamp e) db iid \<lfloor>product_id it\<rfloor>
                  \<lfloor>quantity it\<rfloor> (unit_price it) (js_mul (quantity it) (unit_price it)))"
  show ?case
  proof (cases ?call)
    case None
    with Cons.prems show ?thesis by (auto simp: Let_def)
  next
    case (Some db1)
    from db_call_Some[OF Some] obtain x where
      x: "import_items db1 = import_items db @ [x]" "ii_import_id x = iid"
      by (auto simp: run_insert_item_def Let_def split: if_splits)
    from Some Cons.prems have "insert_items e (Suc k) db1 iid its = (ok, db')" by (simp add: Let_def)
    from Cons.IH[OF this] obtain new where
      "import_items db' = import_items db1 @ new" "\<forall>y \<in> set new. ii_import_id y = iid"
      "if ok then length new = length its else length new < length its"
      by blast
    with x show ?thesis
      by (intro exI[of _ "x # new"]) (auto split: if_splits)
  qed
qed

lemma insert_items_products:
  "insert_items e k db iid its = (True, db') \<Longrightarrow> foreign_keys db \<Longrightarrow>
     \<forall>it \<in> set its. \<lfloor>product_id it\<rfloor> \<in> set (map p_id (products db))"
proof (induction its arbitrary: k db)
  case Nil
  then show ?case by simp
next
  case (Cons it its)
  let ?call = "db_call e k (run_insert_item (current_timestamp e) db iid \<lfloor>product_id it\<rfloor>
                  \<lfloor>quantity it\<rfloor> (unit_price it) (js_mul (quantity it) (unit_price it)))"
  show ?case
  proof (cases ?call)
    case None
    with Cons.prems show ?thesis by (simp add: Let_def)
  next
    case (Some db1)
    note ran = db_call_Some[OF Some]
    with Cons.prems(2) have here: "\<lfloor>product_id it\<rfloor> \<in> set (map p_id (products db))"
      by (auto simp: run_insert_item_def Let_def split: if_splits)
    from Some Cons.prems have "insert_items e (Suc k) db1 iid its = (True, db')" by (simp add: Let_def)
    moreover from run_insert_item_frame[OF ran] Cons.prems(2)
    have "foreign_keys db1" "products db1 = products db" by simp_all
    ultimately show ?thesis using Cons.IH[of "Suc k" db1] here by simp
  qed
qed

lemma validate_items_ids:
  "validate_items its = None \<Longrightarrow>
     \<forall>it \<in> set its. is_integer (product_id it) \<and> 0 < product_id it \<and>
        is_integer (quantity it) \<and> 0 < quantity it \<and> 0 < unit_price it"
  by (induction its) (auto split: if_splits)

text \<open>
  C2. Creation is not atomic. The header and every item are written by statements of
  their own and nothing groups them. For a valid request: when the insertion of the
  header is rejected, the answer is 500 and nothing is stored. When the header was inserted
  and the insertion of some item is rejected, the answer is 500, and the header, which no
  read showed before, stays in the table together with the items inserted before the
  rejected one (fewer than were requested): the detail read and the list read of the
  creator both show it.
\<close>

theorem create_not_atomic:
  assumes "importSchema_validate body = None"
  shows "(insert_header e db user body = None \<longrightarrow> post_imports e db user body = (Status500, db)) \<and>
         (\<forall>new_id db1 db2.
            insert_header e db user body = Some (new_id, db1) \<and>
            insert_items e 1 db1 new_id (items body) = (False, db2) \<longrightarrow>
              post_imports e db user body = (Status500, db2) \<and>
              get_import_by_id db user new_id = Status404 \<and>
              (\<exists>row new. imports_tbl db2 = imports_tbl db @ [row] \<and> i_id row = new_id \<and>
                 import_items db2 = import_items db @ new \<and> length new < length (items body) \<and>
                 (\<exists>d. get_import_by_id db2 user new_id = Status200 d \<and> l_import (d_import d) = row) \<and>
                 (\<exists>rows. get_imports db2 user None None = Status200 rows \<and>
                    row \<in> l_import ` set rows)))"
proof (rule conjI)
  show "insert_header e db user body = None \<longrightarrow> post_imports e db user body = (Status500, db)"
    using assms by (simp add: post_imports_def)
next
  show "\<forall>new_id db1 db2.
            insert_header e db user body = Some (new_id, db1) \<and>
            insert_items e 1 db1 new_id (items body) = (False, db2) \<longrightarrow>
              post_imports e db user body = (Status500, db2) \<and>
              get_import_by_id db user new_id = Status404 \<and>
              (\<exists>row new. imports_tbl db2 = imports_tbl db @ [row] \<and> i_id row = new_id \<and>
                 import_items db2 = import_items db @ new \<and> length new < length (items body) \<and>
                 (\<exists>d. get_import_by_id db2 user new_id = Status200 d \<and> l_import (d_import d) = row) \<and>
                 (\<exists>rows. get_imports db2 user None None = Status200 rows \<and>
                    row \<in> l_import ` set rows))"
  proof (intro allI impI)
  fix new_id db1 db2
  assume h: "insert_header e db user body = Some (new_id, db1) \<and>
             insert_items e 1 db1 new_id (items body) = (False, db2)"
  then have ins: "insert_header e db user body = Some (new_id, db1)"
    and its: "insert_items e 1 db1 new_id (items body) = (False, db2)" by simp_all
  have res: "post_imports e db user body = (Status500, db2)"
    using assms ins its by (simp add: post_imports_def)
  define row where "row = \<lparr>i_id = new_id,
      i_import_code = generateImportCode (date_now e) (math_random e), i_user_id = u_id user,
      i_supplier_id = \<lfloor>supplier_id body\<rfloor>, i_status = ''pending'',
      i_total_amount = total_of (items body),
      i_import_date = the (date_value (import_date body)),
      i_estimated_arrival = date_value (estimated_arrival body), i_tracking_number = None,
      i_notes = notes_text body, i_created_at = current_timestamp e,
      i_updated_at = current_timestamp e\<rparr>"
  from db_call_Some[OF ins[unfolded insert_header_def]]
  have new_id: "new_id = next_rowid (imports_seq db) (map i_id (imports_tbl db))"
    and db1: "imports_tbl db1 = imports_tbl db @ [row]" "import_items db1 = import_items db"
    by (auto simp: run_insert_import_def Let_def row_def split: if_splits)
  have fresh: "new_id \<notin> set (map i_id (imports_tbl db))"
    unfolding new_id by (rule next_rowid_fresh)
  then have none: "filter (\<lambda>i. i_id i = new_id) (imports_tbl db) = []"
    by (auto simp: filter_empty_conv)
  then have before: "get_import_by_id db user new_id = Status404"
    by (simp add: get_import_by_id_def Let_def)
  from insert_items_frame[OF its] db1
  have tbl: "imports_tbl db2 = imports_tbl db @ [row]" by simp
  from insert_items_result[OF its] db1 obtain new where
    new: "import_items db2 = import_items db @ new" "length new < length (items body)"
    by auto
  have one: "filter (\<lambda>i. i_id i = new_id) (imports_tbl db2) = [row]"
    by (simp add: tbl none row_def)
  have own: "i_user_id row = u_id user" by (simp add: row_def)
  have detail: "\<exists>d. get_import_by_id db2 user new_id = Status200 d \<and> l_import (d_import d) = row"
    by (simp add: get_import_by_id_def Let_def one own join_import_def)
  have "row \<in> l_import ` set (map (join_import db2)
           (order_by_desc i_created_at
              (if u_role user \<noteq> ''admin'' then filter (\<lambda>i. i_user_id i = u_id user) (imports_tbl db2)
               else imports_tbl db2)))"
    by (auto simp: set_order_by_desc tbl own image_iff join_import_def)
  then have listed: "\<exists>rows. get_imports db2 user None None = Status200 rows \<and> row \<in> l_import ` set rows"
    by (simp add: get_imports_def Let_def)
  have "i_id row = new_id" by (simp add: row_def)
  with res before tbl new detail listed
  show "post_imports e db user body = (Status500, db2) \<and>
        get_import_by_id db user new_id = Status404 \<and>
        (\<exists>row new. imports_tbl db2 = imports_tbl db @ [row] \<and> i_id row = new_id \<and>
           import_items db2 = import_items db @ new \<and> length new < length (items body) \<and>
           (\<exists>d. get_import_by_id db2 user new_id = Status200 d \<and> l_import (d_import d) = row) \<and>
           (\<exists>rows. get_imports db2 user None None = Status200 rows \<and>
              row \<in> l_import ` set rows))"
    by blast
  qed
qed

theorem create_not_atomic_witness:
  "importSchema_validate scenario_body = None \<and>
   insert_header sample_env after_scenario_db importer1 scenario_body = None \<and>
   post_imports sample_env after_scenario_db importer1 scenario_body = (Status500, after_scenario_db) \<and>
   storage_fault faulty_env = Some 2 \<and> \<not> foreign_keys sample_db \<and>
   (\<exists>db2. post_imports faulty_env sample_db importer1 scenario_body = (Status500, db2) \<and>
      map i_id (imports_tbl db2) = [1] \<and> length (import_items db2) < 2 \<and>
      (\<exists>d. get_import_by_id db2 importer1 1 = Status200 d))"
proof -
  let ?ins = "insert_header faulty_env sample_db importer1 scenario_body"
  let ?its = "insert_items faulty_env 1 (snd (the ?ins)) 1 (items scenario_body)"
  have v: "importSchema_validate scenario_body = None" by code_simp
  have n: "insert_header sample_env after_scenario_db importer1 scenario_body = None" by code_simp
  have f: "storage_fault faulty_env = Some 2" "\<not> foreign_keys sample_db" by code_simp+
  have "map_option fst ?ins = Some 1" by code_simp
  then have h: "?ins = Some (1, snd (the ?ins))" by (cases ?ins) auto
  have "fst ?its = False" by code_simp
  then have i: "?its = (False, snd ?its)" by (rule pair_collapse)
  have e: "imports_tbl sample_db = []" "import_items sample_db = []"
    "length (items scenario_body) = 2" by code_simp+
  note thm1 = create_not_atomic[OF v, of sample_env after_scenario_db importer1]
  note thm2 = create_not_atomic[OF v, of faulty_env sample_db importer1]
  from thm1 n have a: "post_imports sample_env after_scenario_db importer1 scenario_body =
      (Status500, after_scenario_db)" by blast
  from thm2 h i have "post_imports faulty_env sample_db importer1 scenario_body = (Status500, snd ?its) \<and>
      (\<exists>row new. imports_tbl (snd ?its) = imports_tbl sample_db @ [row] \<and> i_id row = 1 \<and>
         import_items (snd ?its) = import_items sample_db @ new \<and>
         length new < length (items scenario_body) \<and>
         (\<exists>d. get_import_by_id (snd ?its) importer1 1 = Status200 d \<and> l_import (d_import d) = row))"
    by blast
  with e have "\<exists>db2. post_imports faulty_env sample_db importer1 scenario_body = (Status500, db2) \<and>
      map i_id (imports_tbl db2) = [1] \<and> length (import_items db2) < 2 \<and>
      (\<exists>d. get_import_by_id db2 importer1 1 = Status200 d)"
    by auto
  with v n a f show ?thesis by blast
qed

text \<open>
  With the connection as SQLite opens it and the second item insertion rejected by the
  storage layer, a valid request is answered with 500 while the header and the first item
  remain stored and visible. The same happens with foreign keys enforced and a second
  product that does not exist.
\<close>

theorem create_not_atomic_counterexample:
  "importSchema_validate scenario_body = None \<and>
   fst (post_imports faulty_env sample_db importer1 scenario_body) = Status500 \<and>
   map i_id (imports_tbl (snd (post_imports faulty_env sample_db importer1 scenario_body))) = [1] \<and>
   map ii_product_id (import_items (snd (post_imports faulty_env sample_db importer1 scenario_body))) = [1] \<and>
   get_import_by_id (snd (post_imports faulty_env sample_db importer1 scenario_body)) importer1 1
     \<noteq> Status404 \<and>
   get_imports (snd (post_imports faulty_env sample_db importer1 scenario_body)) importer1 None None
     \<noteq> Status200 [] \<and>
   importSchema_validate partial_body = None \<and>
   fst (post_imports sample_env enforcing_db importer1 partial_body) = Status500 \<and>
   map i_id (imports_tbl (snd (post_imports sample_env enforcing_db importer1 partial_body))) = [1] \<and>
   map ii_product_id (import_items (snd (post_imports sample_env enforcing_db importer1 partial_body))) = [1]"
  by code_simp

section \<open>The import code\<close>

lemma toUpperCase_append: "toUpperCase (a @ b) = toUpperCase a @ toUpperCase b"
  by (simp add: toUpperCase_def)

lemma toUpperCase_prefix: "toUpperCase ''IMP-'' = ''IMP-''" "toUpperCase ''-'' = ''-''"
  by code_simp+

lemma post_imports_table:
  "imports_tbl (snd (post_imports e db user body)) = imports_tbl db \<or>
   (\<exists>row. imports_tbl (snd (post_imports e db user body)) = imports_tbl db @ [row] \<and>
          i_import_code row = generateImportCode (date_now e) (math_random e) \<and>
          i_import_code row \<notin> set (map i_import_code (imports_tbl db)))"
proof (cases "importSchema_validate body")
  case (Some msg)
  then show ?thesis by (simp add: post_imports_def)
next
  case None
  show ?thesis
  proof (cases "insert_header e db user body")
    case None
    with \<open>importSchema_validate body = None\<close> show ?thesis by (simp add: post_imports_def)
  next
    case (Some p)
    obtain new_id db1 where p: "p = (new_id, db1)" by (cases p)
    obtain ok db2 where it: "insert_items e 1 db1 new_id (items body) = (ok, db2)"
      by (cases "insert_items e 1 db1 new_id (items body)")
    from db_call_Some[OF Some[unfolded insert_header_def]] p
    obtain row where "imports_tbl db1 = imports_tbl db @ [row]"
      "i_import_code row = generateImportCode (date_now e) (math_random e)"
      "i_import_code row \<notin> set (map i_import_code (imports_tbl db))"
      by (auto simp: run_insert_import_def Let_def split: if_splits)
    moreover from insert_items_frame[OF it] have "imports_tbl db2 = imports_tbl db1" by simp
    moreover have "snd (post_imports e db user body) = db2"
      using \<open>importSchema_validate body = None\<close> Some p it
      by (cases ok) (simp_all add: post_imports_def db_call_def)
    ultimately show ?thesis by auto
  qed
qed

text \<open>
  C3. The code is \<^verbatim>\<open>IMP-\<close>, the time in base 36, a dash and at most five characters of the
  random text, in upper case, generated once for a request. The codes of the stored imports
  stay pairwise distinct because the table rejects a second use of a code: a valid request
  whose code is already stored is answered with 500 and stores nothing. Nothing is
  generated a second time.
\<close>

theorem import_code_conflict:
  assumes "distinct (map i_import_code (imports_tbl db))"
  shows "distinct (map i_import_code (imports_tbl (snd (post_imports e db user body)))) \<and>
         generateImportCode (date_now e) (math_random e) =
           ''IMP-'' @ toUpperCase (to_base36 (date_now e)) @ ''-'' @
             toUpperCase (take 5 (drop 2 (math_random e))) \<and>
         length (take 5 (drop 2 (math_random e))) \<le> 5 \<and>
         (importSchema_validate body = None \<and>
          generateImportCode (date_now e) (math_random e) \<in> set (map i_import_code (imports_tbl db))
            \<longrightarrow> post_imports e db user body = (Status500, db))"
proof -
  have d: "distinct (map i_import_code (imports_tbl (snd (post_imports e db user body))))"
    using post_imports_table[of e db user body] assms by auto
  have f: "generateImportCode (date_now e) (math_random e) =
           ''IMP-'' @ toUpperCase (to_base36 (date_now e)) @ ''-'' @
             toUpperCase (take 5 (drop 2 (math_random e)))"
    unfolding generateImportCode_def toUpperCase_append toUpperCase_prefix ..
  have c: "post_imports e db user body = (Status500, db)"
    if "importSchema_validate body = None"
      "generateImportCode (date_now e) (math_random e) \<in> set (map i_import_code (imports_tbl db))"
    using that by (simp add: post_imports_def insert_header_def db_call_def run_insert_import_def)
  have l: "length (take 5 (drop 2 (math_random e))) \<le> 5" by simp
  from d f l c show ?thesis by blast
qed

theorem import_code_conflict_witness:
  "distinct (map i_import_code (imports_tbl after_scenario_db)) \<and>
   importSchema_validate scenario_body = None \<and>
   generateImportCode (date_now sample_env) (math_random sample_env)
     \<in> set (map i_import_code (imports_tbl after_scenario_db)) \<and>
   post_imports sample_env after_scenario_db importer1 scenario_body = (Status500, after_scenario_db) \<and>
   distinct (map i_import_code
     (imports_tbl (snd (post_imports sample_env after_scenario_db importer1 scenario_body))))"
proof -
  have d: "distinct (map i_import_code (imports_tbl after_scenario_db))" by code_simp
  have v: "importSchema_validate scenario_body = None" by code_simp
  have c: "generateImportCode (date_now sample_env) (math_random sample_env)
     \<in> set (map i_import_code (imports_tbl after_scenario_db))" by code_simp
  from import_code_conflict[OF d, of sample_env importer1 scenario_body] d v c
  show ?thesis by blast
qed

text \<open>
  A second creation at the same millisecond with the same random text fails with 500
  and is not retried; with the random text \<^verbatim>\<open>0.i\<close> the code has one random character.
\<close>

theorem import_code_conflict_counterexample:
  "map i_import_code (imports_tbl after_scenario_db) = [''IMP-MJUOHS00-4FZYO''] \<and>
   generateImportCode (date_now sample_env) (math_random sample_env) = ''IMP-MJUOHS00-4FZYO'' \<and>
   importSchema_validate scenario_body = None \<and>
   fst (post_imports sample_env after_scenario_db importer1 scenario_body) = Status500 \<and>
   map i_import_code
     (imports_tbl (snd (post_imports sample_env after_scenario_db importer1 scenario_body)))
     = [''IMP-MJUOHS00-4FZYO''] \<and>
   generateImportCode 1767225600000 ''0.i'' = ''IMP-MJUOHS00-I''"
  by code_simp

section \<open>References to suppliers and products\<close>

text \<open>
  C7. The handler checks the references of an accepted request only for being positive
  integers. That the supplier and every product exist follows only when the connection
  enforces the foreign keys of the schema.
\<close>

theorem create_references:
  assumes "post_imports e db user body = (Status201 r, db')"
  shows "is_integer (supplier_id body) \<and> 0 < supplier_id body \<and>
         (\<forall>it \<in> set (items body). is_integer (product_id it) \<and> 0 < product_id it) \<and>
         (foreign_keys db \<longrightarrow>
            \<lfloor>supplier_id body\<rfloor> \<in> set (map s_id (suppliers db)) \<and>
            (\<forall>it \<in> set (items body). \<lfloor>product_id it\<rfloor> \<in> set (map p_id (products db))))"
proof -
  from assms have v: "importSchema_validate body = None"
    by (auto simp: post_imports_def split: option.splits)
  then have sup: "is_integer (supplier_id body) \<and> 0 < supplier_id body"
    and "validate_items (items body) = None"
    by (auto simp: importSchema_validate_def split: if_splits option.splits)
  from validate_items_ids[OF this(2)]
  have prods: "\<forall>it \<in> set (items body). is_integer (product_id it) \<and> 0 < product_id it"
    by blast
  from assms v obtain new_id db1 where ins: "insert_header e db user body = Some (new_id, db1)"
    by (auto simp: post_imports_def split: option.splits)
  from assms v ins have items_ok: "insert_items e 1 db1 new_id (items body) = (True, db')"
    by (auto simp: post_imports_def split: prod.splits bool.splits option.splits)
  note ran = db_call_Some[OF ins[unfolded insert_header_def]]
  have fk: "\<lfloor>supplier_id body\<rfloor> \<in> set (map s_id (suppliers db)) \<and>
            (\<forall>it \<in> set (items body). \<lfloor>product_id it\<rfloor> \<in> set (map p_id (products db)))"
    if on: "foreign_keys db"
  proof -
    from ran on have s: "\<lfloor>supplier_id body\<rfloor> \<in> set (map s_id (suppliers db))"
      and db1: "foreign_keys db1" "products db1 = products db"
      by (auto simp: run_insert_import_def Let_def split: if_splits)
    from insert_items_products[OF items_ok db1(1)] db1(2) s show ?thesis by simp
  qed
  from sup prods fk show ?thesis by blast
qed

lemma enforcing_created:
  "fst (post_imports sample_env enforcing_db importer1 scenario_body) =
     Status201 (Some \<lparr>c_import = \<lparr>i_id = 1, i_import_code = ''IMP-MJUOHS00-4FZYO'', i_user_id = 2,
           i_supplier_id = 1, i_status = ''pending'', i_total_amount = 25,
           i_import_date = 1736899200000, i_estimated_arrival = None, i_tracking_number = None,
           i_notes = None, i_created_at = ''2026-01-01 00:00:00'',
           i_updated_at = ''2026-01-01 00:00:00''\<rparr>,
         c_supplier_name = Some ''Tech Supplies China''\<rparr>)"
  by code_simp

theorem create_references_witness:
  "foreign_keys enforcing_db \<and>
   (\<exists>r. fst (post_imports sample_env enforcing_db importer1 scenario_body) = Status201 r) \<and>
   \<lfloor>supplier_id scenario_body\<rfloor> \<in> set (map s_id (suppliers enforcing_db)) \<and>
   (\<lambda>it. \<lfloor>product_id it\<rfloor>) ` set (items scenario_body) \<subseteq> set (map p_id (products enforcing_db))"
proof -
  have fk: "foreign_keys enforcing_db" by code_simp
  from create_references[OF pair_collapse[OF enforcing_created]] fk enforcing_created
  show ?thesis by auto
qed

text \<open>
  Without enforcement, a request for supplier 99 and product 77, neither of which exists,
  is accepted and stored.
\<close>

theorem create_references_counterexample:
  "\<not> foreign_keys sample_db \<and>
   99 \<notin> set (map s_id (suppliers sample_db)) \<and> 77 \<notin> set (map p_id (products sample_db)) \<and>
   (case fst (post_imports sample_env sample_db importer1 dangling_body) of
      Status201 r \<Rightarrow> map_option (i_supplier_id \<circ> c_import) r = Some 99
    | _ \<Rightarrow> False) \<and>
   map i_supplier_id (imports_tbl (snd (post_imports sample_env sample_db importer1 dangling_body))) = [99] \<and>
   map ii_product_id (import_items (snd (post_imports sample_env sample_db importer1 dangling_body))) = [77]"
  by code_simp

section \<open>Status updates\<close>

lemma authorize_admin: "authorize [''admin''] user \<longleftrightarrow> u_role user = ''admin''"
  by (simp add: authorize_def)

lemma update_absent:
  assumes "iid \<notin> set (map i_id (imports_tbl db))"
  shows "run_update_status ts db st tn iid = db"
proof -
  have "map (\<lambda>i. if i_id i = iid
                  then i\<lparr>i_status := st, i_tracking_number := tn, i_updated_at := ts\<rparr> else i)
          (imports_tbl db) = imports_tbl db"
    using assms by (intro map_idI) auto
  then show ?thesis by (simp add: run_update_status_def)
qed

lemma filter_updated:
  "filter (\<lambda>i. i_id i = iid)
     (map (\<lambda>i. if i_id i = iid then i\<lparr>i_status := st, i_tracking_number := tn, i_updated_at := ts\<rparr> else i) rows)
   = map (\<lambda>i. i\<lparr>i_status := st, i_tracking_number := tn, i_updated_at := ts\<rparr>) (filter (\<lambda>i. i_id i = iid) rows)"
  by (induction rows) auto

text \<open>The outcome of an accepted request, by whether a row has the identifier.\<close>

lemma put_import_status_valid:
  assumes "u_role user = ''admin''" "status body = Some st" "st \<in> set validStatuses"
  shows "put_import_status e db user iid body =
     (case filter (\<lambda>i. i_id i = iid) (imports_tbl db) of
        [] \<Rightarrow> Status404
      | r # _ \<Rightarrow> Status200 (r\<lparr>i_status := st, i_tracking_number := or_null (tracking_number body),
                                i_updated_at := current_timestamp e\<rparr>),
      run_update_status (current_timestamp e) db st (or_null (tracking_number body)) iid)"
  using assms
  by (simp add: put_import_status_def authorize_admin array_includes_def Let_def
      run_update_status_def filter_updated split: list.splits)

lemma two_owner_ids: "map i_id (imports_tbl two_owner_db) = [1, 2]"
  by code_simp

lemma two_owner_owners: "map i_user_id (imports_tbl two_owner_db) = [2, 1]"
  by code_simp

text \<open>
  C10. For an administrator and one of the seven labels, an identifier that no import has
  is answered with 404, and the database is the one before: the update, although issued
  before the lookup, matches no row.
\<close>

theorem status_update_not_found:
  assumes "u_role user = ''admin''"
    and "status body = Some st" and "st \<in> set validStatuses"
    and "iid \<notin> set (map i_id (imports_tbl db))"
  shows "put_import_status e db user iid body = (Status404, db)"
proof -
  have "filter (\<lambda>i. i_id i = iid) (imports_tbl db) = []"
    using assms(4) by (auto simp: filter_empty_conv)
  then show ?thesis
    using put_import_status_valid[OF assms(1-3), of e db iid] update_absent[OF assms(4)]
    by simp
qed

theorem status_update_not_found_witness:
  "u_role admin_user = ''admin'' \<and> status shipped_body = Some ''shipped'' \<and>
   ''shipped'' \<in> set validStatuses \<and> 99 \<notin> set (map i_id (imports_tbl two_owner_db)) \<and>
   put_import_status sample_env2 two_owner_db admin_user 99 shipped_body = (Status404, two_owner_db)"
proof -
  have a: "u_role admin_user = ''admin''" by code_simp
  have s: "status shipped_body = Some ''shipped''" by code_simp
  have v: "''shipped'' \<in> set validStatuses" by code_simp
  have n: "99 \<notin> set (map i_id (imports_tbl two_owner_db))" by (simp add: two_owner_ids)
  from status_update_not_found[OF a s v n, of sample_env2] a s v n show ?thesis by blast
qed

text \<open>
  C4. For an administrator and an identifier that an import has, the update succeeds
  exactly when the status is one of the seven labels, whatever the status was before; it
  then stores that status in every import with the identifier, keeps the identifiers of
  the table, and answers with such an import. Any other value is answered with 400 and
  the database is unchanged.
\<close>

theorem status_update_labels:
  assumes "u_role user = ''admin''" and "iid \<in> set (map i_id (imports_tbl db))"
  shows "((\<exists>r db'. put_import_status e db user iid body = (Status200 r, db')) \<longleftrightarrow>
            (\<exists>st. status body = Some st \<and>
               st \<in> {''pending'', ''processing'', ''shipped'', ''in_transit'', ''customs'',
                      ''delivered'', ''cancelled''})) \<and>
         (\<forall>st. status body = Some st \<and>
               st \<in> {''pending'', ''processing'', ''shipped'', ''in_transit'', ''customs'',
                      ''delivered'', ''cancelled''} \<longrightarrow>
               (\<exists>r db'. put_import_status e db user iid body = (Status200 r, db') \<and>
                  i_id r = iid \<and> i_status r = st \<and> r \<in> set (imports_tbl db') \<and>
                  map i_id (imports_tbl db') = map i_id (imports_tbl db) \<and>
                  (\<forall>i \<in> set (imports_tbl db'). i_id i = iid \<longrightarrow> i_status i = st))) \<and>
         ((\<forall>st. status body = Some st \<longrightarrow>
               st \<notin> {''pending'', ''processing'', ''shipped'', ''in_transit'', ''customs'',
                      ''delivered'', ''cancelled''}) \<longrightarrow>
            put_import_status e db user iid body = (Status400 estado_invalido, db))"
proof -
  have labels: "set validStatuses = {''pending'', ''processing'', ''shipped'', ''in_transit'',
      ''customs'', ''delivered'', ''cancelled''}"
    by (simp add: validStatuses_def)
  from assms(2) obtain r0 rest where f: "filter (\<lambda>i. i_id i = iid) (imports_tbl db) = r0 # rest"
    by (cases "filter (\<lambda>i. i_id i = iid) (imports_tbl db)") (auto simp: filter_empty_conv)
  then have "r0 \<in> set (filter (\<lambda>i. i_id i = iid) (imports_tbl db))" by simp
  then have r0: "i_id r0 = iid" "r0 \<in> set (imports_tbl db)" by simp_all
  have ok: "\<exists>r db'. put_import_status e db user iid body = (Status200 r, db') \<and>
                  i_id r = iid \<and> i_status r = st \<and> r \<in> set (imports_tbl db') \<and>
                  map i_id (imports_tbl db') = map i_id (imports_tbl db) \<and>
                  (\<forall>i \<in> set (imports_tbl db'). i_id i = iid \<longrightarrow> i_status i = st)"
    if st: "status body = Some st" "st \<in> set validStatuses" for st
  proof -
    let ?upd = "\<lambda>i. i\<lparr>i_status := st, i_tracking_number := or_null (tracking_number body),
                        i_updated_at := current_timestamp e\<rparr>"
    let ?db' = "run_update_status (current_timestamp e) db st (or_null (tracking_number body)) iid"
    have tbl: "imports_tbl ?db' = map (\<lambda>i. if i_id i = iid then ?upd i else i) (imports_tbl db)"
      by (simp add: run_update_status_def)
    have res: "put_import_status e db user iid body = (Status200 (?upd r0), ?db')"
      using put_import_status_valid[OF assms(1) st, of e db iid] f by simp
    have mem: "?upd r0 \<in> set (imports_tbl ?db')"
      unfolding tbl using r0 by (auto simp: image_iff intro!: bexI[of _ r0])
    have same: "map i_id (imports_tbl ?db') = map i_id (imports_tbl db)"
      unfolding tbl by (rule nth_equalityI) simp_all
    have stored: "\<forall>i \<in> set (imports_tbl ?db'). i_id i = iid \<longrightarrow> i_status i = st"
    proof (intro ballI impI)
      fix i
      assume "i \<in> set (imports_tbl ?db')" and id: "i_id i = iid"
      then obtain j where j: "i = (if i_id j = iid then ?upd j else j)"
        unfolding tbl by (auto simp only: set_map image_iff)
      show "i_status i = st"
      proof (cases "i_id j = iid")
        case True
        with j show ?thesis by simp
      next
        case False
        with j id show ?thesis by simp
      qed
    qed
    have a1: "i_id (?upd r0) = iid" using r0(1) by simp
    have a2: "i_status (?upd r0) = st" by simp
    show ?thesis
      by (intro exI[of _ "?upd r0"] exI[of _ ?db'] conjI res a1 a2 mem same stored)
  qed
  have bad: "put_import_status e db user iid body = (Status400 estado_invalido, db)"
    if "\<forall>st. status body = Some st \<longrightarrow> st \<notin> set validStatuses"
    using that assms(1)
    by (auto simp: put_import_status_def authorize_admin array_includes_def split: option.splits)
  have iff: "(\<exists>r db'. put_import_status e db user iid body = (Status200 r, db')) \<longleftrightarrow>
            (\<exists>st. status body = Some st \<and> st \<in> set validStatuses)"
  proof
    assume "\<exists>r db'. put_import_status e db user iid body = (Status200 r, db')"
    then have "put_import_status e db user iid body \<noteq> (Status400 estado_invalido, db)" by auto
    with bad show "\<exists>st. status body = Some st \<and> st \<in> set validStatuses" by blast
  next
    assume "\<exists>st. status body = Some st \<and> st \<in> set validStatuses"
    then obtain st where "status body = Some st" "st \<in> set validStatuses" by blast
    from ok[OF this] show "\<exists>r db'. put_import_status e db user iid body = (Status200 r, db')"
      by blast
  qed
  have all: "\<forall>st. status body = Some st \<and> st \<in> set validStatuses \<longrightarrow>
               (\<exists>r db'. put_import_status e db user iid body = (Status200 r, db') \<and>
                  i_id r = iid \<and> i_status r = st \<and> r \<in> set (imports_tbl db') \<and>
                  map i_id (imports_tbl db') = map i_id (imports_tbl db) \<and>
                  (\<forall>i \<in> set (imports_tbl db'). i_id i = iid \<longrightarrow> i_status i = st))"
  proof (intro allI impI)
    fix st
    assume "status body = Some st \<and> st \<in> set validStatuses"
    then have "status body = Some st" "st \<in> set validStatuses" by simp_all
    then show "\<exists>r db'. put_import_status e db user iid body = (Status200 r, db') \<and>
                  i_id r = iid \<and> i_status r = st \<and> r \<in> set (imports_tbl db') \<and>
                  map i_id (imports_tbl db') = map i_id (imports_tbl db) \<and>
                  (\<forall>i \<in> set (imports_tbl db'). i_id i = iid \<longrightarrow> i_status i = st)"
      by (rule ok)
  qed
  have inv: "(\<forall>st. status body = Some st \<longrightarrow> st \<notin> set validStatuses) \<longrightarrow>
            put_import_status e db user iid body = (Status400 estado_invalido, db)"
  proof
    assume "\<forall>st. status body = Some st \<longrightarrow> st \<notin> set validStatuses"
    then show "put_import_status e db user iid body = (Status400 estado_invalido, db)"
      by (rule bad)
  qed
  show ?thesis
    unfolding labels[symmetric] by (intro conjI iff all inv)
qed

theorem status_update_labels_witness:
  "u_role admin_user = ''admin'' \<and> 1 \<in> set (map i_id (imports_tbl after_scenario_db)) \<and>
   map i_status (imports_tbl after_scenario_db) = [''pending''] \<and>
   (\<exists>r db'. put_import_status sample_env2 after_scenario_db admin_user 1 shipped_body = (Status200 r, db')
       \<and> i_id r = 1 \<and> i_status r = ''shipped'' \<and> map i_status (imports_tbl db') = [''shipped'']) \<and>
   put_import_status sample_env2 after_scenario_db admin_user 1 unknown_body
     = (Status400 estado_invalido, after_scenario_db)"
proof -
  have a: "u_role admin_user = ''admin''" by code_simp
  have ids: "map i_id (imports_tbl after_scenario_db) = [1]" by code_simp
  then have i: "1 \<in> set (map i_id (imports_tbl after_scenario_db))" by simp
  have p: "map i_status (imports_tbl after_scenario_db) = [''pending'']" by code_simp
  have s: "status shipped_body = Some ''shipped''" by code_simp
  have u: "\<forall>st. status unknown_body = Some st \<longrightarrow>
             st \<notin> {''pending'', ''processing'', ''shipped'', ''in_transit'', ''customs'',
                    ''delivered'', ''cancelled''}"
    by (simp add: unknown_body_def)
  have m: "status shipped_body = Some ''shipped'' \<and>
      ''shipped'' \<in> {''pending'', ''processing'', ''shipped'', ''in_transit'', ''customs'',
                    ''delivered'', ''cancelled''}"
    using s by simp
  note valid = status_update_labels[OF a i, of sample_env2 shipped_body,
      THEN conjunct2, THEN conjunct1, THEN spec, THEN mp, OF m]
  then obtain r db' where
    res: "put_import_status sample_env2 after_scenario_db admin_user 1 shipped_body = (Status200 r, db')"
      "i_id r = 1" "i_status r = ''shipped''"
    and same: "map i_id (imports_tbl db') = [1]"
    and stored: "\<forall>i \<in> set (imports_tbl db'). i_id i = 1 \<longrightarrow> i_status i = ''shipped''"
    unfolding ids by (elim exE conjE)
  from same obtain x where x: "imports_tbl db' = [x]" "i_id x = 1"
    by (cases "imports_tbl db'") auto
  with stored have "map i_status (imports_tbl db') = [''shipped'']" by simp
  with res have ok: "\<exists>r db'. put_import_status sample_env2 after_scenario_db admin_user 1 shipped_body
       = (Status200 r, db') \<and> i_id r = 1 \<and> i_status r = ''shipped'' \<and>
       map i_status (imports_tbl db') = [''shipped'']"
    by (intro exI[of _ r] exI[of _ db']) simp
  have bad: "put_import_status sample_env2 after_scenario_db admin_user 1 unknown_body
     = (Status400 estado_invalido, after_scenario_db)"
    by (rule status_update_labels[OF a i, of sample_env2 unknown_body,
          THEN conjunct2, THEN conjunct2, THEN mp, OF u])
  from a i p ok bad show ?thesis by (intro conjI)
qed

text \<open>
  C6. A successful update leaves the other tables and the items as they were, leaves every
  import with another identifier as it was, and changes in the import with the identifier
  only the status, the tracking number and the time of update. The tracking number becomes
  the text that was passed when one was passed and is not empty, and none otherwise: a
  stored tracking number is cleared when none is passed.
\<close>

theorem status_update_frame:
  assumes "put_import_status e db user iid body = (Status200 r, db')"
  shows "\<exists>st. status body = Some st \<and>
           users db' = users db \<and> suppliers db' = suppliers db \<and> products db' = products db \<and>
           import_items db' = import_items db \<and>
           length (imports_tbl db') = length (imports_tbl db) \<and>
           (\<forall>k < length (imports_tbl db).
              (i_id (imports_tbl db ! k) \<noteq> iid \<longrightarrow> imports_tbl db' ! k = imports_tbl db ! k) \<and>
              (i_id (imports_tbl db ! k) = iid \<longrightarrow>
                 imports_tbl db' ! k =
                   (imports_tbl db ! k)\<lparr>i_status := st,
                      i_tracking_number :=
                        (case tracking_number body of
                           None \<Rightarrow> None
                         | Some t \<Rightarrow> if t = [] then None else Some t),
                      i_updated_at := current_timestamp e\<rparr>)) \<and>
           r \<in> set (imports_tbl db') \<and> i_id r = iid \<and> i_status r = st \<and>
           (\<forall>t. tracking_number body = Some t \<and> t \<noteq> [] \<longrightarrow> i_tracking_number r = Some t) \<and>
           (tracking_number body = Some [] \<longrightarrow> i_tracking_number r = None) \<and>
           (tracking_number body = None \<longrightarrow> i_tracking_number r = None)"
proof -
  from assms have adm: "u_role user = ''admin''"
    by (auto simp: put_import_status_def authorize_admin split: if_splits)
  from assms obtain st where st: "status body = Some st" "st \<in> set validStatuses"
    by (auto simp: put_import_status_def array_includes_def split: if_splits option.splits)
  let ?tn = "case tracking_number body of None \<Rightarrow> None | Some t \<Rightarrow> if t = [] then None else Some t"
  have tn: "or_null (tracking_number body) = ?tn" by (simp add: or_null_def)
  let ?upd = "\<lambda>i. i\<lparr>i_status := st, i_tracking_number := ?tn, i_updated_at := current_timestamp e\<rparr>"
  from put_import_status_valid[OF adm st, of e db iid] assms
  have "db' = run_update_status (current_timestamp e) db st (or_null (tracking_number body)) iid"
    and "(case filter (\<lambda>i. i_id i = iid) (imports_tbl db) of [] \<Rightarrow> Status404
          | r # _ \<Rightarrow> Status200 (r\<lparr>i_status := st,
                 i_tracking_number := or_null (tracking_number body),
                 i_updated_at := current_timestamp e\<rparr>)) = Status200 r"
    by simp_all
  then have db': "db' = run_update_status (current_timestamp e) db st ?tn iid"
    and res: "(case filter (\<lambda>i. i_id i = iid) (imports_tbl db) of [] \<Rightarrow> Status404
               | r # _ \<Rightarrow> Status200 (?upd r)) = Status200 r"
    unfolding tn by simp_all
  from res obtain r0 rest where f: "filter (\<lambda>i. i_id i = iid) (imports_tbl db) = r0 # rest"
    and r: "r = ?upd r0"
    by (auto split: list.splits)
  from f have "r0 \<in> set (filter (\<lambda>i. i_id i = iid) (imports_tbl db))" by simp
  then have r0: "r0 \<in> set (imports_tbl db)" "i_id r0 = iid" by simp_all
  have tbl: "imports_tbl db' = map (\<lambda>i. if i_id i = iid then ?upd i else i) (imports_tbl db)"
    by (simp add: db' run_update_status_def)
  have "r \<in> set (imports_tbl db')"
    unfolding tbl r using r0 by (auto simp: image_iff intro!: bexI[of _ r0])
  moreover have "\<forall>t. tracking_number body = Some t \<and> t \<noteq> [] \<longrightarrow> i_tracking_number r = Some t"
    "tracking_number body = Some [] \<longrightarrow> i_tracking_number r = None"
    "tracking_number body = None \<longrightarrow> i_tracking_number r = None"
    by (simp_all add: r)
  ultimately show ?thesis
    using st(1) r0(2) by (intro exI[of _ st]) (simp add: tbl r db' run_update_status_def)
qed

lemma shipped_updated:
  "fst (put_import_status sample_env2 two_owner_db admin_user 1 shipped_body) =
     Status200 \<lparr>i_id = 1, i_import_code = ''IMP-MJUOHS00-4FZYO'', i_user_id = 2,
           i_supplier_id = 1, i_status = ''shipped'', i_total_amount = 25,
           i_import_date = 1736899200000, i_estimated_arrival = None,
           i_tracking_number = Some ''TRK123'', i_notes = None,
           i_created_at = ''2026-01-01 00:00:00'', i_updated_at = ''2026-01-01 01:00:00''\<rparr>"
  by code_simp

lemma delivered_updated:
  "fst (put_import_status sample_env2 shipped_db admin_user 1 delivered_body) =
     Status200 \<lparr>i_id = 1, i_import_code = ''IMP-MJUOHS00-4FZYO'', i_user_id = 2,
           i_supplier_id = 1, i_status = ''delivered'', i_total_amount = 25,
           i_import_date = 1736899200000, i_estimated_arrival = None,
           i_tracking_number = None, i_notes = None,
           i_created_at = ''2026-01-01 00:00:00'', i_updated_at = ''2026-01-01 01:00:00''\<rparr>"
  by code_simp

lemma shipped_db_ids: "map i_id (imports_tbl shipped_db) = [1, 2]"
  by code_simp

theorem status_update_frame_witness:
  "map i_tracking_number (imports_tbl two_owner_db) = [None, None] \<and>
   tracking_number shipped_body = Some ''TRK123'' \<and>
   (\<exists>r. fst (put_import_status sample_env2 two_owner_db admin_user 1 shipped_body) = Status200 r \<and>
      i_status r = ''shipped'' \<and> i_tracking_number r = Some ''TRK123'') \<and>
   map i_tracking_number (imports_tbl shipped_db) = [Some ''TRK123'', None] \<and>
   tracking_number delivered_body = None \<and>
   (\<exists>r db'. put_import_status sample_env2 shipped_db admin_user 1 delivered_body = (Status200 r, db') \<and>
      i_status r = ''delivered'' \<and> i_tracking_number r = None \<and>
      map i_tracking_number (imports_tbl db') = [None, None] \<and>
      import_items db' = import_items shipped_db \<and>
      imports_tbl db' ! 1 = imports_tbl shipped_db ! 1 \<and>
      imports_tbl db' ! 0 = (imports_tbl shipped_db ! 0)\<lparr>i_status := ''delivered'',
          i_tracking_number := None, i_updated_at := current_timestamp sample_env2\<rparr>)"
proof -
  let ?db' = "snd (put_import_status sample_env2 shipped_db admin_user 1 delivered_body)"
  have before: "map i_tracking_number (imports_tbl two_owner_db) = [None, None]"
    "map i_tracking_number (imports_tbl shipped_db) = [Some ''TRK123'', None]"
    "map i_tracking_number (imports_tbl ?db') = [None, None]"
    by code_simp+
  have t: "tracking_number delivered_body = None" "status delivered_body = Some ''delivered''"
    "tracking_number shipped_body = Some ''TRK123''" "''TRK123'' \<noteq> []"
    by code_simp+
  have l: "length (imports_tbl shipped_db) = 2"
    using shipped_db_ids by (metis length_map length_Cons list.size(3) numeral_2_eq_2)
  have ids: "i_id (imports_tbl shipped_db ! 0) = 1" "i_id (imports_tbl shipped_db ! 1) = 2"
    using shipped_db_ids l by (metis nth_map nth_Cons_0 zero_less_numeral,
        metis nth_map nth_Cons_0 nth_Cons_Suc One_nat_def one_less_numeral_iff semiring_norm(76))
  from status_update_frame[OF pair_collapse[OF shipped_updated]] t(3,4)
  have stored: "\<exists>r. fst (put_import_status sample_env2 two_owner_db admin_user 1 shipped_body) = Status200 r \<and>
      i_status r = ''shipped'' \<and> i_tracking_number r = Some ''TRK123''"
    by (auto simp: shipped_updated)
  note res = pair_collapse[OF delivered_updated]
  from status_update_frame[OF res] t obtain
    items: "import_items ?db' = import_items shipped_db"
    and rows: "\<forall>k < length (imports_tbl shipped_db).
        (i_id (imports_tbl shipped_db ! k) \<noteq> 1 \<longrightarrow> imports_tbl ?db' ! k = imports_tbl shipped_db ! k) \<and>
        (i_id (imports_tbl shipped_db ! k) = 1 \<longrightarrow>
           imports_tbl ?db' ! k =
             (imports_tbl shipped_db ! k)\<lparr>i_status := ''delivered'',
                i_tracking_number := None,
                i_updated_at := current_timestamp sample_env2\<rparr>)"
    by auto
  have k1: "imports_tbl ?db' ! 1 = imports_tbl shipped_db ! 1"
    using rows[rule_format, of 1] l ids(2) by simp
  have k0: "imports_tbl ?db' ! 0 = (imports_tbl shipped_db ! 0)\<lparr>i_status := ''delivered'',
                i_tracking_number := None, i_updated_at := current_timestamp sample_env2\<rparr>"
    using rows[rule_format, of 0] l ids(1) by simp
  have cleared: "\<exists>r db'. put_import_status sample_env2 shipped_db admin_user 1 delivered_body = (Status200 r, db') \<and>
      i_status r = ''delivered'' \<and> i_tracking_number r = None \<and>
      map i_tracking_number (imports_tbl db') = [None, None] \<and>
      import_items db' = import_items shipped_db \<and>
      imports_tbl db' ! 1 = imports_tbl shipped_db ! 1 \<and>
      imports_tbl db' ! 0 = (imports_tbl shipped_db ! 0)\<lparr>i_status := ''delivered'',
          i_tracking_number := None, i_updated_at := current_timestamp sample_env2\<rparr>"
    using res before(3) items k1 k0
    by (intro exI[of _ ?db'] exI[of _ "\<lparr>i_id = 1, i_import_code = ''IMP-MJUOHS00-4FZYO'', i_user_id = 2,
           i_supplier_id = 1, i_status = ''delivered'', i_total_amount = 25,
           i_import_date = 1736899200000, i_estimated_arrival = None,
           i_tracking_number = None, i_notes = None,
           i_created_at = ''2026-01-01 00:00:00'', i_updated_at = ''2026-01-01 01:00:00''\<rparr>"]) simp
  from before(1,2) t(1,3) stored cleared show ?thesis by (intro conjI)
qed

section \<open>What a caller without the administrator role can read\<close>

text \<open>
  C5. For a caller whose role is not \<^verbatim>\<open>admin\<close>, the list holds only imports of the caller,
  and the detail request for an import of somebody else has the same answer, 404, as the
  detail request for an identifier that no import has.
\<close>

theorem non_admin_reads:
  assumes "u_role user \<noteq> ''admin''"
  shows "(\<exists>rows. get_imports db user st sid = Status200 rows \<and>
            (\<forall>x \<in> set rows. i_user_id (l_import x) = u_id user)) \<and>
         ((\<forall>i \<in> set (imports_tbl db). i_id i = other \<longrightarrow> i_user_id i \<noteq> u_id user) \<and>
          (\<forall>i \<in> set (imports_tbl db). i_id i \<noteq> unknown) \<longrightarrow>
            get_import_by_id db user other = Status404 \<and>
            get_import_by_id db user unknown = Status404 \<and>
            get_import_by_id db user other = get_import_by_id db user unknown)"
proof -
  have own: "\<forall>x \<in> set rows. i_user_id (l_import x) = u_id user"
    if "get_imports db user st sid = Status200 rows" for rows
    using that assms
    by (auto simp: get_imports_def Let_def set_order_by_desc join_import_def
        split: option.splits if_splits)
  have "\<exists>rows. get_imports db user st sid = Status200 rows"
    by (simp add: get_imports_def Let_def)
  with own have list: "\<exists>rows. get_imports db user st sid = Status200 rows \<and>
            (\<forall>x \<in> set rows. i_user_id (l_import x) = u_id user)" by blast
  have hidden: "get_import_by_id db user iid = Status404"
    if "\<forall>i \<in> set (imports_tbl db). i_id i = iid \<longrightarrow> i_user_id i \<noteq> u_id user" for iid
  proof -
    have "filter (\<lambda>i. i_user_id i = u_id user) (filter (\<lambda>i. i_id i = iid) (imports_tbl db)) = []"
      using that by (auto simp: filter_empty_conv)
    then show ?thesis using assms by (simp add: get_import_by_id_def Let_def)
  qed
  from list hidden show ?thesis by auto
qed

theorem non_admin_reads_witness:
  "u_role importer1 \<noteq> ''admin'' \<and>
   map i_user_id (imports_tbl two_owner_db) = [2, 1] \<and>
   (\<exists>rows. get_imports two_owner_db importer1 None None = Status200 rows \<and>
      (\<forall>x \<in> set rows. i_user_id (l_import x) = 2)) \<and>
   get_import_by_id two_owner_db importer1 2 = Status404 \<and>
   get_import_by_id two_owner_db importer1 99 = Status404"
proof -
  have r: "u_role importer1 \<noteq> ''admin''" by code_simp
  have u: "u_id importer1 = 2" by code_simp
  have o: "\<forall>i \<in> set (imports_tbl two_owner_db). i_id i = 2 \<longrightarrow> i_user_id i \<noteq> u_id importer1"
    by code_simp
  have n: "\<forall>i \<in> set (imports_tbl two_owner_db). i_id i \<noteq> 99" by code_simp
  from non_admin_reads[OF r, of two_owner_db None None 2 99] o n r u
  show ?thesis by (simp add: two_owner_owners)
qed

section \<open>The dashboard aggregates\<close>

lemma those_Some: "those os = Some ys \<Longrightarrow> os = map Some ys"
proof (induction os arbitrary: ys)
  case Nil
  then show ?case by simp
next
  case (Cons a os)
  then show ?case by (cases a) (auto split: option.splits)
qed

lemma those_map_Some:
  assumes "those (map f xs) = Some ys"
  shows "length ys = length xs" and "\<forall>k < length xs. f (xs ! k) = Some (ys ! k)"
proof -
  from those_Some[OF assms] have m: "map f xs = map Some ys" .
  then show l: "length ys = length xs" by (metis length_map)
  show "\<forall>k < length xs. f (xs ! k) = Some (ys ! k)"
  proof (intro allI impI)
    fix k assume "k < length xs"
    with m l show "f (xs ! k) = Some (ys ! k)" by (metis nth_map)
  qed
qed




lemma length_filter_status:
  "length (filter (\<lambda>i. i_status i = st) rows) = count_list (map i_status rows) st"
  by (induction rows) auto

lemma count_list_pos: "x \<in> set xs \<Longrightarrow> 0 < count_list xs x"
  by (metis count_list_0_iff gr0I)

lemma dashboard_queries:
  assumes "get_dashboard e db = Status200 s"
  shows "statusStats db = Some (statusBreakdown s)"
    and "monthlyStats e db = Some (monthlyTrends s)"
    and "topSuppliers db = Some (stats_topSuppliers s)"
  using assms by (auto simp: get_dashboard_def split: option.splits)


lemma status_group_Some:
  assumes "status_group db st = Some g"
  shows "ss_status g = st"
    and "ss_count g = length (filter (\<lambda>i. i_status i = st) (imports_tbl db))"
  using assms by (auto simp: status_group_def Let_def)


text \<open>What an answered dashboard request holds for the statuses.\<close>

lemma status_breakdown_answered:
  assumes "get_dashboard e db = Status200 s"
  shows "distinct (map ss_status (statusBreakdown s)) \<and>
   set (map ss_status (statusBreakdown s)) = i_status ` set (imports_tbl db) \<and>
   (\<Sum>g\<leftarrow>statusBreakdown s. ss_count g) = length (imports_tbl db) \<and>
   (\<forall>g \<in> set (statusBreakdown s).
      ss_count g = length (filter (\<lambda>i. i_status i = ss_status g) (imports_tbl db)) \<and> 0 < ss_count g)"
proof -
  let ?sts = "map i_status (imports_tbl db)"
  let ?keys = "sort (remdups ?sts)"
  let ?ss = "statusBreakdown s"
  from dashboard_queries(1)[OF assms]
  have "those (map (status_group db) ?keys) = Some ?ss" by (simp add: statusStats_def)
  note each = those_map_Some[OF this]
  have grp: "ss_status (?ss ! k) = ?keys ! k \<and> ss_count (?ss ! k) = count_list ?sts (?keys ! k)"
    if "k < length ?keys" for k
  proof -
    from each(2) that have "status_group db (?keys ! k) = Some (?ss ! k)" by blast
    from status_group_Some[OF this] show ?thesis by (simp add: length_filter_status)
  qed
  have names: "map ss_status ?ss = ?keys"
    using each(1) grp by (intro nth_equalityI) simp_all
  have counts: "map ss_count ?ss = map (count_list ?sts) ?keys"
    using each(1) grp by (intro nth_equalityI) simp_all
  have d: "distinct ?keys" and k: "set ?keys = set ?sts" by simp_all
  have "(\<Sum>g\<leftarrow>?ss. ss_count g) = sum (count_list ?sts) (set ?keys)"
    unfolding counts using d by (rule sum_list_distinct_conv_sum_set)
  also have "\<dots> = length ?sts" unfolding k by (simp add: sum_count_set)
  finally have total: "(\<Sum>g\<leftarrow>?ss. ss_count g) = length (imports_tbl db)" by simp
  have each_entry: "\<forall>g \<in> set ?ss.
      ss_count g = length (filter (\<lambda>i. i_status i = ss_status g) (imports_tbl db)) \<and> 0 < ss_count g"
  proof
    fix g assume "g \<in> set ?ss"
    then obtain j where j: "j < length ?ss" "g = ?ss ! j" by (auto simp: in_set_conv_nth)
    with each(1) have jk: "j < length ?keys" by simp
    from grp[OF jk] j(2) have g: "ss_status g = ?keys ! j" "ss_count g = count_list ?sts (?keys ! j)"
      by simp_all
    from jk have "?keys ! j \<in> set ?keys" by (rule nth_mem)
    with k have "?keys ! j \<in> set ?sts" by simp
    then have "0 < count_list ?sts (?keys ! j)" by (rule count_list_pos)
    with g show "ss_count g = length (filter (\<lambda>i. i_status i = ss_status g) (imports_tbl db)) \<and>
                 0 < ss_count g"
      by (simp add: length_filter_status)
  qed
  have "distinct (map ss_status ?ss)" "set (map ss_status ?ss) = i_status ` set (imports_tbl db)"
    unfolding names using d k by simp_all
  with total each_entry show ?thesis by blast
qed

text \<open>No \<^verbatim>\<open>SUM\<close> fails while the totals are not negative and add up to less than
  \<open>2^63 - 1\<close>.\<close>

lemma kahanBabuskaNeumaierStep_flags:
  "approx (kahanBabuskaNeumaierStep p r) = approx p" "ovrfl (kahanBabuskaNeumaierStep p r) = ovrfl p"
  by (simp_all add: kahanBabuskaNeumaierStep_def Let_def)

lemma kahanBabuskaNeumaierStepInt64_flags:
  "approx (kahanBabuskaNeumaierStepInt64 p i) = approx p"
  "ovrfl (kahanBabuskaNeumaierStepInt64 p i) = ovrfl p"
  by (simp_all add: kahanBabuskaNeumaierStepInt64_def Let_def kahanBabuskaNeumaierStep_flags)

lemma kahanBabuskaNeumaierInit_flags:
  "approx (kahanBabuskaNeumaierInit p i) = approx p" "ovrfl (kahanBabuskaNeumaierInit p i) = ovrfl p"
  by (simp_all add: kahanBabuskaNeumaierInit_def Let_def)

lemma fold_sumStep_no_overflow:
  assumes "\<forall>v \<in> set vs. 0 \<le> v" and "\<not> ovrfl p"
    and "\<not> approx p \<longrightarrow> 0 \<le> iSum p \<and> of_int (iSum p) + sum_list vs < 2 ^ 63 - 1"
  shows "\<not> ovrfl (fold sumStep vs p)"
  using assms
proof (induction vs arbitrary: p)
  case Nil
  then show ?case by simp
next
  case (Cons v vs)
  from Cons.prems(1) have v: "0 \<le> v" and rest: "\<forall>w \<in> set vs. 0 \<le> w" by simp_all
  from rest have nn: "0 \<le> sum_list vs" by (simp add: sum_list_nonneg)
  have "\<not> ovrfl (sumStep v p) \<and>
        (\<not> approx (sumStep v p) \<longrightarrow>
           0 \<le> iSum (sumStep v p) \<and> of_int (iSum (sumStep v p)) + sum_list vs < 2 ^ 63 - 1)"
  proof (cases "approx p")
    case True
    with Cons.prems(2) show ?thesis
      by (simp add: sumStep_def kahanBabuskaNeumaierStep_flags kahanBabuskaNeumaierStepInt64_flags)
  next
    case False
    with Cons.prems(3) have p: "0 \<le> iSum p" "of_int (iSum p) + (v + sum_list vs) < 2 ^ 63 - 1"
      by simp_all
    show ?thesis
    proof (cases "stored_as_integer v")
      case no: False
      with False Cons.prems(2) show ?thesis
        by (simp add: sumStep_def kahanBabuskaNeumaierStep_flags kahanBabuskaNeumaierInit_flags)
    next
      case yes: True
      then have vi: "of_int \<lfloor>v\<rfloor> = v" by (simp add: stored_as_integer_def is_integer_def)
      have x: "(of_int (iSum p + \<lfloor>v\<rfloor>) :: rat) = of_int (iSum p) + v"
        by (simp only: of_int_add vi)
      from p(2) have "of_int (iSum p) + v + sum_list vs < 2 ^ 63 - 1" by (simp only: add.assoc)
      then have b: "(of_int (iSum p + \<lfloor>v\<rfloor>) :: rat) + sum_list vs < 2 ^ 63 - 1"
        by (simp only: x)
      then have "(of_int (iSum p + \<lfloor>v\<rfloor>) :: rat) < of_int (2 ^ 63 - 1)" using nn by simp
      then have up: "iSum p + \<lfloor>v\<rfloor> < 2 ^ 63 - 1" by (simp only: of_int_less_iff)
      have lo: "0 \<le> iSum p + \<lfloor>v\<rfloor>" using p(1) v by simp
      have "sumStep v p = p\<lparr>iSum := iSum p + \<lfloor>v\<rfloor>\<rparr>"
        using False yes up lo by (simp add: sumStep_def Let_def)
      with False Cons.prems(2) lo b show ?thesis by simp
    qed
  qed
  then show ?case using Cons.IH[OF rest, of "sumStep v p"] by simp
qed

lemma sql_sum_succeeds:
  assumes "\<forall>v \<in> set vs. 0 \<le> v" and "sum_list vs < 2 ^ 63 - 1"
  shows "\<exists>total. sql_sum vs = Some total"
proof -
  let ?p = "fold sumStep vs \<lparr>approx = False, ovrfl = False, iSum = 0, rSum = 0, rErr = 0\<rparr>"
  from fold_sumStep_no_overflow[OF assms(1), of "\<lparr>approx = False, ovrfl = False, iSum = 0, rSum = 0, rErr = 0\<rparr>"]
    assms(2)
  have "\<not> ovrfl ?p" by simp
  then show ?thesis by (simp add: sql_sum_def sumFinalize_def)
qed

lemma sum_list_filter_le:
  assumes "\<forall>x \<in> set xs. (0::rat) \<le> f x"
  shows "sum_list (map f (filter P xs)) \<le> sum_list (map f xs)"
  using assms by (induction xs) (auto intro: add_increasing)

lemma group_sum_succeeds:
  assumes "\<forall>i \<in> set rows. 0 \<le> i_total_amount i"
    and "(\<Sum>i\<leftarrow>rows. i_total_amount i) < 2 ^ 63 - 1"
  shows "\<exists>total. sql_sum (map i_total_amount (filter P rows)) = Some total"
proof (rule sql_sum_succeeds)
  show "\<forall>v \<in> set (map i_total_amount (filter P rows)). 0 \<le> v" using assms(1) by auto
  from sum_list_filter_le[of rows i_total_amount P] assms
  show "sum_list (map i_total_amount (filter P rows)) < 2 ^ 63 - 1" by simp
qed

lemma those_map_succeeds:
  "\<forall>x \<in> set xs. \<exists>y. f x = Some y \<Longrightarrow> \<exists>ys. those (map f xs) = Some ys"
  by (induction xs) auto

lemma dashboard_succeeds:
  assumes "\<forall>i \<in> set (imports_tbl db). 0 \<le> i_total_amount i"
    and "(\<Sum>i\<leftarrow>imports_tbl db. i_total_amount i) < 2 ^ 63 - 1"
  shows "\<exists>s. get_dashboard e db = Status200 s"
proof -
  note all = group_sum_succeeds[OF assms]
  have "\<forall>st \<in> set (sort (remdups (map i_status (imports_tbl db)))). \<exists>g. status_group db st = Some g"
    using all by (simp add: status_group_def Let_def)
  from those_map_succeeds[OF this] obtain ss where ss: "statusStats db = Some ss"
    by (auto simp: statusStats_def)
  have recent: "\<forall>i \<in> set (recent_imports e db). 0 \<le> i_total_amount i"
    "(\<Sum>i\<leftarrow>recent_imports e db. i_total_amount i) < 2 ^ 63 - 1"
    using assms sum_list_filter_le[of "imports_tbl db" i_total_amount
        "\<lambda>i. twelve_months_ago e \<le> i_created_at i"]
    by (auto simp: recent_imports_def)
  have "\<forall>m \<in> set (sort (remdups (map (\<lambda>i. strftime_Y_m (i_created_at i)) (recent_imports e db)))).
          \<exists>g. month_group e db m = Some g"
    using group_sum_succeeds[OF recent] by (simp add: month_group_def Let_def)
  from those_map_succeeds[OF this] obtain ms where ms: "monthlyStats e db = Some ms"
    by (auto simp: monthlyStats_def)
  have "\<forall>sp \<in> set (suppliers db). \<exists>g. supplier_group db sp = Some g"
    using all by (simp add: supplier_group_def Let_def)
  from those_map_succeeds[OF this] obtain ts where ts: "topSuppliers db = Some ts"
    by (auto simp: topSuppliers_def ranked_suppliers_def)
  from ss ms ts show ?thesis by (simp add: get_dashboard_def)
qed

section \<open>The two aggregates of the claims\<close>





lemma shipped_dashboard:
  "get_dashboard sample_env2 shipped_db =
     Status200 \<lparr>statusBreakdown =
                   [\<lparr>ss_status = ''pending'', ss_count = 1, ss_total_value = Integer 25\<rparr>,
                    \<lparr>ss_status = ''shipped'', ss_count = 1, ss_total_value = Integer 25\<rparr>],
                 monthlyTrends =
                   [\<lparr>ms_month = Some ''2026-01'', ms_imports_count = 2,
                     ms_total_value = Integer 50\<rparr>],
                 stats_topSuppliers =
                   [\<lparr>ts_name = ''Tech Supplies China'', ts_imports_count = 2,
                     ts_total_value = Integer 50\<rparr>,
                    \<lparr>ts_name = ''European Electronics'', ts_imports_count = 0,
                     ts_total_value = Null\<rparr>,
                    \<lparr>ts_name = ''Global Components'', ts_imports_count = 0,
                     ts_total_value = Null\<rparr>]\<rparr>"
  by code_simp

text \<open>
  C9. The dashboard request is answered at least when no total is negative and the totals
  add up to less than \<open>2^63 - 1\<close>. Whenever it is answered, the status breakdown has one
  entry for each status that occurs, and the counts of its entries add up to the number of
  imports.
\<close>

theorem status_breakdown_counts:
  "((\<forall>i \<in> set (imports_tbl db). 0 \<le> i_total_amount i) \<and>
    (\<Sum>i\<leftarrow>imports_tbl db. i_total_amount i) < 2 ^ 63 - 1
      \<longrightarrow> (\<exists>s. get_dashboard e db = Status200 s)) \<and>
   (\<forall>s. get_dashboard e db = Status200 s \<longrightarrow>
      distinct (map ss_status (statusBreakdown s)) \<and>
      set (map ss_status (statusBreakdown s)) = i_status ` set (imports_tbl db) \<and>
      (\<Sum>g\<leftarrow>statusBreakdown s. ss_count g) = length (imports_tbl db) \<and>
      (\<forall>g \<in> set (statusBreakdown s).
         ss_count g = length (filter (\<lambda>i. i_status i = ss_status g) (imports_tbl db)) \<and>
         0 < ss_count g))"
proof (rule conjI)
  show "(\<forall>i \<in> set (imports_tbl db). 0 \<le> i_total_amount i) \<and>
        (\<Sum>i\<leftarrow>imports_tbl db. i_total_amount i) < 2 ^ 63 - 1
          \<longrightarrow> (\<exists>s. get_dashboard e db = Status200 s)"
    using dashboard_succeeds[of db e] by blast
qed (intro allI impI, rule status_breakdown_answered)

theorem status_breakdown_counts_witness:
  "map i_status (imports_tbl shipped_db) = [''shipped'', ''pending''] \<and>
   map i_total_amount (imports_tbl shipped_db) = [25, 25] \<and>
   (\<exists>s. get_dashboard sample_env2 shipped_db = Status200 s) \<and>
   (\<exists>s. get_dashboard sample_env2 shipped_db = Status200 s \<and>
        map ss_status (statusBreakdown s) = [''pending'', ''shipped''] \<and>
        map ss_count (statusBreakdown s) = [1, 1] \<and>
        distinct (map ss_status (statusBreakdown s)) \<and>
        (\<Sum>g\<leftarrow>statusBreakdown s. ss_count g) = length (imports_tbl shipped_db))"
proof -
  have st: "map i_status (imports_tbl shipped_db) = [''shipped'', ''pending'']" by code_simp
  let ?s = "\<lparr>statusBreakdown =
                   [\<lparr>ss_status = ''pending'', ss_count = 1, ss_total_value = Integer 25\<rparr>,
                    \<lparr>ss_status = ''shipped'', ss_count = 1, ss_total_value = Integer 25\<rparr>],
                 monthlyTrends =
                   [\<lparr>ms_month = Some ''2026-01'', ms_imports_count = 2,
                     ms_total_value = Integer 50\<rparr>],
                 stats_topSuppliers =
                   [\<lparr>ts_name = ''Tech Supplies China'', ts_imports_count = 2,
                     ts_total_value = Integer 50\<rparr>,
                    \<lparr>ts_name = ''European Electronics'', ts_imports_count = 0,
                     ts_total_value = Null\<rparr>,
                    \<lparr>ts_name = ''Global Components'', ts_imports_count = 0,
                     ts_total_value = Null\<rparr>]\<rparr>"
  have totals: "map i_total_amount (imports_tbl shipped_db) = [25, 25]" by code_simp
  then have small: "(\<Sum>i\<leftarrow>imports_tbl shipped_db. i_total_amount i) < 2 ^ 63 - 1"
    by simp
  have "\<forall>i \<in> set (imports_tbl shipped_db). 0 \<le> i_total_amount i" by code_simp
  with small status_breakdown_counts[of shipped_db sample_env2]
  have answered: "\<exists>s. get_dashboard sample_env2 shipped_db = Status200 s" by blast
  note counts = status_breakdown_counts[of shipped_db sample_env2, THEN conjunct2, THEN spec, THEN mp,
      OF shipped_dashboard]
  from counts have d: "distinct (map ss_status (statusBreakdown ?s))" by (rule conjunct1)
  from counts have t: "(\<Sum>g\<leftarrow>statusBreakdown ?s. ss_count g) = length (imports_tbl shipped_db)"
    by (rule conjunct2[THEN conjunct2, THEN conjunct1])
  have v: "map ss_status (statusBreakdown ?s) = [''pending'', ''shipped'']"
    "map ss_count (statusBreakdown ?s) = [1, 1]"
    by simp_all
  from shipped_dashboard v d t
  have "\<exists>s. get_dashboard sample_env2 shipped_db = Status200 s \<and>
        map ss_status (statusBreakdown s) = [''pending'', ''shipped''] \<and>
        map ss_count (statusBreakdown s) = [1, 1] \<and>
        distinct (map ss_status (statusBreakdown s)) \<and>
        (\<Sum>g\<leftarrow>statusBreakdown s. ss_count g) = length (imports_tbl shipped_db)"
    by (intro exI[of _ ?s] conjI)
  with st totals answered show ?thesis by (intro conjI)
qed

text \<open>
  After two accepted orders whose totals are \<open>2^62\<close>, both pending, the sum of the totals
  of that status overflows 64 bits: there is no breakdown, the request is answered with 500.
\<close>

theorem status_breakdown_counts_counterexample:
  "(case fst (post_imports sample_env sample_db importer1 huge_body) of
      Status201 r \<Rightarrow> map_option (i_total_amount \<circ> c_import) r = Some 4611686018427387904
    | _ \<Rightarrow> False) \<and>
   map i_status (imports_tbl overflow_db) = [''pending'', ''pending''] \<and>
   length (imports_tbl overflow_db) = 2 \<and>
   statusStats overflow_db = None \<and>
   get_dashboard sample_env2 overflow_db = Status500"
  by code_simp

end
